theory Spec2Isabelle
  imports Complex_Main "HOL-Library.Product_Lexorder"
begin

section \<open>Python values shared by the modules\<close>

text \<open>
  Exceptions are values. Only the exception classes that the modelled code can raise or
  catch are listed. The cache distinguishes two kinds of \<open>sqlite3.Error\<close>: the retry
  loops catch \<open>sqlite3.OperationalError\<close> only, the wrapper's outer handler catches
  every \<open>sqlite3.Error\<close>; \<open>OtherSqliteError\<close> stands for those that are not an
  \<open>OperationalError\<close>.
\<close>

datatype exn =
    IndexError
  | ZeroDivisionError
  | OverflowError
  | TypeError
  | ValueError
  | OperationalError
  | OtherSqliteError

text \<open>
  The date and time fields of a \<open>datetime.datetime\<close> are the record \<open>datetime\<close>; a
  \<open>timestamp\<close> adds the UTC offset of an aware value, in minutes (\<open>None\<close> for a naive
  value; offsets are whole minutes). The typed dictionaries of \<open>rh_types\<close> keep the
  fields only: all their timestamps carry one and the same offset (the brokerage API
  delivers every timestamp with the suffix \<open>Z\<close>), and Python compares such values field
  by field. A \<open>datetime.date\<close> is the triple (year, month, day); both are ordered
  lexicographically, as Python orders them.
\<close>

record datetime =
  year :: nat
  month :: nat
  day :: nat
  hour :: nat
  minute :: nat
  second :: nat
  microsecond :: nat

record timestamp = datetime +
  utcoffset :: "int option"

type_synonym date = "nat \<times> nat \<times> nat"

definition date_of :: "datetime \<Rightarrow> date" where
  "date_of d = (year d, month d, day d)"

definition dt_key :: "datetime \<Rightarrow> nat \<times> nat \<times> nat \<times> nat \<times> nat \<times> nat \<times> nat" where
  "dt_key d = (year d, month d, day d, hour d, minute d, second d, microsecond d)"

definition dt_less :: "datetime \<Rightarrow> datetime \<Rightarrow> bool" where
  "dt_less a b = (dt_key a < dt_key b)"

text \<open>
  \<open>d - datetime.timedelta(days=1)\<close>: the previous calendar day at the same time of day.
  Python raises \<open>OverflowError\<close> before 0001-01-01.
\<close>

definition is_leap :: "nat \<Rightarrow> bool" where
  "is_leap y = (y mod 4 = 0 \<and> (y mod 100 \<noteq> 0 \<or> y mod 400 = 0))"

definition days_in_month :: "nat \<Rightarrow> nat \<Rightarrow> nat" where
  "days_in_month y m =
     (if m = 2 then (if is_leap y then 29 else 28)
      else if m = 4 \<or> m = 6 \<or> m = 9 \<or> m = 11 then 30 else 31)"

definition minus_one_day :: "datetime \<Rightarrow> exn + datetime" where
  "minus_one_day d =
     (if 1 < day d then Inr (d\<lparr>day := day d - 1\<rparr>)
      else if 1 < month d
        then Inr (d\<lparr>month := month d - 1, day := days_in_month (year d) (month d - 1)\<rparr>)
      else if 1 < year d then Inr (d\<lparr>year := year d - 1, month := 12, day := 31\<rparr>)
      else Inl OverflowError)"

text \<open>Floats are modelled by exact rationals: rounding, infinities and NaN are left out.
  The true division of Python raises on a zero divisor.\<close>

definition py_truediv :: "rat \<Rightarrow> rat \<Rightarrow> exn + rat" where
  "py_truediv a b = (if b = 0 then Inl ZeroDivisionError else Inr (a / b))"

text \<open>
  The untyped Python values that travel through the conversion helpers and the cache. A
  \<open>dict\<close> with string keys is the list of its items in insertion order.
\<close>

datatype pyobj =
    PyNone
  | PyBool bool
  | PyInt int
  | PyFloat rat
  | PyStr string
  | PyDatetime timestamp
  | PyList "pyobj list"
  | PyDict "(string \<times> pyobj) list"

text \<open>\<open>d.get(k)\<close>: the value stored under \<open>k\<close>, or \<open>None\<close>.\<close>

definition dict_get :: "(string \<times> pyobj) list \<Rightarrow> string \<Rightarrow> pyobj" where
  "dict_get d k = (case map_of d k of None \<Rightarrow> PyNone | Some v \<Rightarrow> v)"

section \<open>rh\_types: the typed dictionaries\<close>

text \<open>The \<open>date\<close> of a \<open>PercentageDate\<close> holds a \<open>datetime.date\<close> in the first point of
  the year-to-date series and a \<open>datetime.datetime\<close> everywhere else.\<close>

datatype date_value = ADate date | ADatetime datetime

record PercentageDate =
  date :: date_value
  percentage :: rat

record EquityHistorical =
  adjusted_open_equity :: rat
  adjusted_close_equity :: rat
  open_equity :: rat
  close_equity :: rat
  open_market_value :: rat
  close_market_value :: rat
  begins_at :: datetime
  net_return :: rat
  session :: string

record BankTransfer =
  id_t :: string
  url :: string
  ref_id :: string
  cancel :: "string option"
  ach_relationship :: string
  account :: string
  amount :: rat
  direction :: string
  state :: string
  created_at :: datetime
  updated_at :: datetime

section \<open>rh\_types: conversion of raw dictionaries\<close>

text \<open>
  The type annotations that \<open>convert_dict_to_typed_dict\<close> inspects: the basic classes,
  \<open>Optional[...]\<close>, \<open>list[...]\<close> and the \<open>TypedDict\<close> classes with their declared
  fields.
\<close>

datatype pytype =
    TyFloat
  | TyStr
  | TyBool
  | TyDatetime
  | TyOptional pytype
  | TyList pytype
  | TyTypedDict string "(string \<times> pytype) list"

text \<open>The \<open>TypedDict\<close> classes of the module that the conversion is applied to.\<close>

definition EquityHistorical_type :: pytype where
  "EquityHistorical_type =
     TyTypedDict ''EquityHistorical''
       [(''adjusted_open_equity'', TyFloat), (''adjusted_close_equity'', TyFloat),
        (''open_equity'', TyFloat), (''close_equity'', TyFloat),
        (''open_market_value'', TyFloat), (''close_market_value'', TyFloat),
        (''begins_at'', TyDatetime), (''net_return'', TyFloat), (''session'', TyStr)]"

definition HistoricalPortfolio_type :: pytype where
  "HistoricalPortfolio_type =
     TyTypedDict ''HistoricalPortfolio''
       [(''adjusted_open_equity'', TyFloat), (''adjusted_previous_close_equity'', TyFloat),
        (''open_equity'', TyFloat), (''previous_close_equity'', TyFloat),
        (''open_time'', TyDatetime), (''interval'', TyStr), (''span'', TyStr),
        (''bounds'', TyStr), (''total_return'', TyFloat),
        (''equity_historicals'', TyList EquityHistorical_type), (''use_new_hp'', TyBool)]"

definition BankTransfer_fields :: "(string \<times> pytype) list" where
  "BankTransfer_fields =
     [(''id'', TyStr), (''url'', TyStr), (''ref_id'', TyStr), (''cancel'', TyOptional TyStr),
      (''ach_relationship'', TyStr), (''account'', TyStr), (''amount'', TyFloat),
      (''direction'', TyStr), (''state'', TyStr), (''created_at'', TyDatetime),
      (''updated_at'', TyDatetime)]"

definition BankTransfer_type :: pytype where
  "BankTransfer_type = TyTypedDict ''BankTransfer'' BankTransfer_fields"

text \<open>
  Two functions of the standard library are parameters of the conversion: \<open>float(s)\<close>
  on a string and \<open>datetime.fromisoformat(s)\<close> on a string of the API, whose shape is
  not fixed here. Each returns \<open>None\<close> where Python raises \<open>ValueError\<close>.
\<close>

record pylib =
  float_of_str :: "string \<Rightarrow> rat option"
  datetime_of_str :: "string \<Rightarrow> timestamp option"

text \<open>\<open>float(i)\<close> on an \<open>int\<close> raises \<open>OverflowError\<close> when \<open>i\<close> rounds to a magnitude
  beyond the largest double.\<close>

definition float_of_int :: "int \<Rightarrow> exn + rat" where
  "float_of_int i =
     (if \<bar>i\<bar> < 2 ^ 1024 - 2 ^ 970 then Inr (of_int i) else Inl OverflowError)"

text \<open>\<open>value.replace("Z", "+00:00")\<close>.\<close>

definition replace_Z :: "string \<Rightarrow> string" where
  "replace_Z v = concat (map (\<lambda>c. if c = CHR ''Z'' then ''+00:00'' else [c]) v)"

definition u_convert_value_to_type :: "pylib \<Rightarrow> pyobj \<Rightarrow> pytype \<Rightarrow> exn + pyobj" where
  "u_convert_value_to_type lib v target_type =
     (case v of
        PyNone \<Rightarrow> Inr PyNone
      | _ \<Rightarrow>
        (case (target_type, v) of
           (TyDatetime, PyStr s) \<Rightarrow>
             (case datetime_of_str lib (replace_Z s) of
                None \<Rightarrow> Inl ValueError
              | Some d \<Rightarrow> Inr (PyDatetime d))
         | _ \<Rightarrow>
           if target_type = TyFloat then
             (case v of
                PyInt i \<Rightarrow> (case float_of_int i of Inl e \<Rightarrow> Inl e | Inr x \<Rightarrow> Inr (PyFloat x))
              | PyBool b \<Rightarrow> Inr (PyFloat (if b then 1 else 0))
              | PyFloat x \<Rightarrow> Inr (PyFloat x)
              | PyStr s \<Rightarrow>
                  (case float_of_str lib s of
                     Some x \<Rightarrow> Inr (PyFloat x)
                   | None \<Rightarrow> Inr (PyFloat 0))
              | _ \<Rightarrow> Inr (PyFloat 0))
           else Inr v))"

text \<open>
  \<open>get_type_hints\<close>: the declared fields of a \<open>TypedDict\<close>, no field for another class,
  and \<open>TypeError\<close> for an annotation that is not a class.
\<close>

fun get_type_hints :: "pytype \<Rightarrow> exn + (string \<times> pytype) list" where
  "get_type_hints (TyTypedDict n hints) = Inr hints"
| "get_type_hints (TyOptional t) = Inl TypeError"
| "get_type_hints (TyList t) = Inl TypeError"
| "get_type_hints t = Inr []"

text \<open>A list comprehension whose element expression may raise: the first exception ends it.\<close>

fun collect :: "(exn + 'a) list \<Rightarrow> exn + 'a list" where
  "collect [] = Inr []"
| "collect (Inl e # rs) = Inl e"
| "collect (Inr v # rs) = (case collect rs of Inl e \<Rightarrow> Inl e | Inr vs \<Rightarrow> Inr (v # vs))"

text \<open>
  \<open>convert_dict_to_typed_dict\<close> and \<open>convert_field\<close>, the body of the \<open>try\<close> inside its
  loop over the fields. The handler of that \<open>try\<close> (\<open>except Exception\<close>) stores \<open>None\<close>
  for the field; the handler of the outer \<open>try\<close> returns \<open>None\<close>.
\<close>

function convert_dict_to_typed_dict :: "pylib \<Rightarrow> pyobj \<Rightarrow> pytype \<Rightarrow> exn + pyobj"
  and convert_field :: "pylib \<Rightarrow> (string \<times> pyobj) list \<Rightarrow> string \<Rightarrow> pytype \<Rightarrow> exn + pyobj"
where
  "convert_dict_to_typed_dict lib data target_type =
     (case data of
        PyNone \<Rightarrow> Inr PyNone
      | PyDict d \<Rightarrow>
          (case get_type_hints target_type of
             Inl e \<Rightarrow> Inr PyNone
           | Inr type_hints \<Rightarrow>
               Inr (PyDict
                 (map (\<lambda>(field_name, field_type).
                         (field_name,
                          case convert_field lib d field_name field_type of
                            Inl e \<Rightarrow> PyNone
                          | Inr v \<Rightarrow> v))
                    type_hints)))
      | _ \<Rightarrow> Inr PyNone)"
| "convert_field lib d field_name field_type =
     (let field_value = dict_get d field_name in
      case field_type of
        TyList element_type \<Rightarrow>
          (case field_value of
             PyList items \<Rightarrow>
               (case collect
                       (map (\<lambda>item. case item of
                                        PyDict x \<Rightarrow> convert_dict_to_typed_dict lib item element_type
                                      | _ \<Rightarrow> Inr item)
                          items) of
                  Inl e \<Rightarrow> Inl e
                | Inr vs \<Rightarrow> Inr (PyList vs))
           | _ \<Rightarrow> Inr (PyList []))
      | TyTypedDict n hints \<Rightarrow> convert_dict_to_typed_dict lib field_value field_type
      | _ \<Rightarrow> u_convert_value_to_type lib field_value field_type)"
  by pat_completeness auto

lemma size_field_less:
  "(nm, t) \<in> set hints \<Longrightarrow> size t < Suc (size_list (size_prod (\<lambda>_. 0) size) hints)"
  by (induction hints) auto

termination convert_dict_to_typed_dict
  apply (relation "measure (\<lambda>x. case x of
            Inl (lib, data, ty) \<Rightarrow> 2 * size ty
          | Inr (lib, d, nm, ty) \<Rightarrow> 2 * size ty + 1)")
  subgoal by simp
  subgoal for lib data target_type d type_hints x field_name field_type
    by (cases target_type) (auto dest: size_field_less)
  subgoal by simp
  subgoal by simp
  done

declare convert_dict_to_typed_dict.simps [simp del] convert_field.simps [simp del]

section \<open>caching: serialization hooks\<close>

text \<open>
  \<open>datetime.isoformat()\<close> writes \<open>YYYY-MM-DDTHH:MM:SS\<close>, then \<open>.ffffff\<close> when the
  microsecond is not zero, then the offset \<open>+HH:MM\<close> or \<open>-HH:MM\<close> of an aware value.
  \<open>digits\<close> is the decimal numeral of a number and \<open>zero_pad k\<close> the format \<open>%0kd\<close>.
\<close>

definition digit_char :: "nat \<Rightarrow> char" where
  "digit_char n = char_of (48 + n)"

fun digits :: "nat \<Rightarrow> string" where
  "digits n = (if n < 10 then [digit_char n] else digits (n div 10) @ [digit_char (n mod 10)])"

declare digits.simps [simp del]

definition zero_pad :: "nat \<Rightarrow> nat \<Rightarrow> string" where
  "zero_pad k n = replicate (k - length (digits n)) (CHR ''0'') @ digits n"

definition format_offset :: "int option \<Rightarrow> string" where
  "format_offset off =
     (case off of
        None \<Rightarrow> []
      | Some m \<Rightarrow>
          (if m < 0 then ''-'' else ''+'')
          @ zero_pad 2 (nat \<bar>m\<bar> div 60) @ '':'' @ zero_pad 2 (nat \<bar>m\<bar> mod 60))"

definition isoformat :: "timestamp \<Rightarrow> string" where
  "isoformat d =
     zero_pad 4 (year d) @ ''-'' @ zero_pad 2 (month d) @ ''-'' @ zero_pad 2 (day d) @ ''T''
     @ zero_pad 2 (hour d) @ '':'' @ zero_pad 2 (minute d) @ '':'' @ zero_pad 2 (second d)
     @ (if microsecond d \<noteq> 0 then ''.'' @ zero_pad 6 (microsecond d) else [])
     @ format_offset (utcoffset d)"

text \<open>
  The values that the constructor of \<open>datetime\<close> accepts; it raises \<open>ValueError\<close> on
  every other combination of fields. An offset lies strictly between minus and plus 24
  hours.
\<close>

definition valid_datetime :: "timestamp \<Rightarrow> bool" where
  "valid_datetime d =
     (1 \<le> year d \<and> year d \<le> 9999 \<and> 1 \<le> month d \<and> month d \<le> 12
      \<and> 1 \<le> day d \<and> day d \<le> days_in_month (year d) (month d)
      \<and> hour d < 24 \<and> minute d < 60 \<and> second d < 60 \<and> microsecond d < 1000000
      \<and> (case utcoffset d of None \<Rightarrow> True | Some m \<Rightarrow> \<bar>m\<bar> < 1440))"

text \<open>
  \<open>datetime.fromisoformat\<close> on the four shapes that \<open>isoformat\<close> writes: 19 characters,
  26 with the microseconds, and each of the two followed by the six characters of an
  offset. The separator between date and time may be any character. Every other string
  is answered with \<open>ValueError\<close> here.
\<close>

definition isdigit :: "char \<Rightarrow> bool" where
  "isdigit c = ((48 :: nat) \<le> of_char c \<and> of_char c \<le> (57 :: nat))"

definition parse_digits :: "string \<Rightarrow> nat option" where
  "parse_digits s =
     (if s \<noteq> [] \<and> list_all isdigit s
      then Some (foldl (\<lambda>acc c. 10 * acc + (of_char c - 48)) (0 :: nat) s)
      else None)"

text \<open>The offset \<open>+HH:MM\<close> or \<open>-HH:MM\<close>, in minutes.\<close>

definition parse_offset :: "string \<Rightarrow> int option" where
  "parse_offset s =
     (if length s = 6 \<and> (s ! 0 = CHR ''+'' \<or> s ! 0 = CHR ''-'') \<and> s ! 3 = CHR '':'' then
        (case (parse_digits (take 2 (drop 1 s)), parse_digits (drop 4 s)) of
           (Some hh, Some mm) \<Rightarrow>
             Some ((if s ! 0 = CHR ''-'' then - 1 else 1) * int (hh * 60 + mm))
         | _ \<Rightarrow> None)
      else None)"

definition fromisoformat :: "string \<Rightarrow> exn + timestamp" where
  "fromisoformat s =
     (let aware = (length s = 25 \<or> length s = 32);
          t = (if aware then take (length s - 6) s else s)
      in
      if (length t = 19 \<or> length t = 26)
         \<and> t ! 4 = CHR ''-'' \<and> t ! 7 = CHR ''-'' \<and> t ! 13 = CHR '':'' \<and> t ! 16 = CHR '':''
         \<and> (if length t = 26 then t ! 19 = CHR ''.'' else True)
      then
        (case (parse_digits (take 4 t), parse_digits (take 2 (drop 5 t)),
               parse_digits (take 2 (drop 8 t)), parse_digits (take 2 (drop 11 t)),
               parse_digits (take 2 (drop 14 t)), parse_digits (take 2 (drop 17 t)),
               if length t = 26 then parse_digits (drop 20 t) else Some 0,
               if aware then map_option Some (parse_offset (drop (length s - 6) s))
               else Some None) of
           (Some y, Some mo, Some dd, Some h, Some mi, Some sec, Some us, Some off) \<Rightarrow>
             (let d = \<lparr>year = y, month = mo, day = dd, hour = h, minute = mi, second = sec,
                       microsecond = us, utcoffset = off\<rparr>
              in if valid_datetime d then Inr d else Inl ValueError)
         | _ \<Rightarrow> Inl ValueError)
      else Inl ValueError)"

text \<open>The two hooks of the cache. \<open>"__datetime__" in obj\<close> is a lookup of the key;
  \<open>fromisoformat\<close> raises \<open>TypeError\<close> on an argument that is not a string.\<close>

definition u_serialize_for_cache :: "pyobj \<Rightarrow> pyobj" where
  "u_serialize_for_cache obj =
     (case obj of
        PyDatetime d \<Rightarrow> PyDict [(''__datetime__'', PyStr (isoformat d))]
      | _ \<Rightarrow> obj)"

definition u_deserialize_from_cache :: "pyobj \<Rightarrow> exn + pyobj" where
  "u_deserialize_from_cache obj =
     (case obj of
        PyDict d \<Rightarrow>
          (case map_of d ''__datetime__'' of
             Some v \<Rightarrow>
               (case v of
                  PyStr s \<Rightarrow>
                    (case fromisoformat s of Inl e \<Rightarrow> Inl e | Inr t \<Rightarrow> Inr (PyDatetime t))
                | _ \<Rightarrow> Inl TypeError)
           | None \<Rightarrow> Inr obj)
      | _ \<Rightarrow> Inr obj)"

section \<open>caching: the retrying connection and the cached wrapper\<close>

text \<open>
  The world of a cached call: the rows of the wrapper's table (key to value and
  timestamp), the wall clock, the outcomes of the coming store operations and the number
  of times the wrapped function has been invoked. Each store operation (\<open>connect\<close>,
  \<open>execute\<close>, \<open>commit\<close>) takes the head of \<open>faults\<close>: \<open>Some e\<close> makes it raise \<open>e\<close>,
  \<open>None\<close> or an empty list lets it succeed.
\<close>

record world =
  rows :: "string \<Rightarrow> (string \<times> rat) option"
  clock :: rat
  faults :: "exn option list"
  calls :: nat

definition MAX_RETRIES :: nat where
  "MAX_RETRIES = 5"

definition RETRY_DELAY :: rat where
  "RETRY_DELAY = 1 / 10"

definition store_op :: "world \<Rightarrow> exn option \<times> world" where
  "store_op w = (case faults w of [] \<Rightarrow> (None, w) | f # fs \<Rightarrow> (f, w\<lparr>faults := fs\<rparr>))"

definition sleep :: "rat \<Rightarrow> world \<Rightarrow> world" where
  "sleep secs w = w\<lparr>clock := clock w + secs\<rparr>"

text \<open>The body of the \<open>try\<close> in \<open>RetryableDatabase.__enter__\<close>: \<open>sqlite3.connect\<close>, then
  the \<open>PRAGMA\<close> statement.\<close>

definition connect :: "world \<Rightarrow> exn option \<times> world" where
  "connect w =
     (case store_op w of
        (Some e, w1) \<Rightarrow> (Some e, w1)
      | (None, w1) \<Rightarrow> store_op w1)"

text \<open>The loop \<open>for attempt in range(self.MAX_RETRIES)\<close> of \<open>__enter__\<close>, from a given
  attempt on. Only \<open>sqlite3.OperationalError\<close> is caught.\<close>

function enter_loop :: "nat \<Rightarrow> world \<Rightarrow> exn option \<times> world" where
  "enter_loop attempt w =
     (if attempt < MAX_RETRIES then
        (case connect w of
           (None, w1) \<Rightarrow> (None, w1)
         | (Some e, w1) \<Rightarrow>
             if e = OperationalError then
               (if attempt = MAX_RETRIES - 1 then (Some e, w1)
                else enter_loop (attempt + 1) (sleep (RETRY_DELAY * 2 ^ attempt) w1))
             else (Some e, w1))
      else (None, w))"
  by pat_completeness auto
termination
  by (relation "measure (\<lambda>(attempt, w). MAX_RETRIES - attempt)") auto

declare enter_loop.simps [simp del]

definition RetryableDatabase_enter :: "world \<Rightarrow> exn option \<times> world" where
  "RetryableDatabase_enter w = enter_loop 0 w"

text \<open>
  \<open>json.dumps\<close> and \<open>json.loads\<close> are parameters; each takes the hook it is called with.
  The wrapped function is the sequence of its outcomes: \<open>func n\<close> is what its invocation
  number \<open>n\<close> returns or raises.
\<close>

record json_lib =
  json_dumps :: "(pyobj \<Rightarrow> pyobj) \<Rightarrow> pyobj \<Rightarrow> exn + string"
  json_loads :: "(pyobj \<Rightarrow> exn + pyobj) \<Rightarrow> string \<Rightarrow> exn + pyobj"

definition invoke :: "(nat \<Rightarrow> exn + pyobj) \<Rightarrow> world \<Rightarrow> (exn + pyobj) \<times> world" where
  "invoke func w = (func (calls w), w\<lparr>calls := calls w + 1\<rparr>)"

text \<open>\<open>f"{func.__name__}:{str(args)}:{str(kwargs)}"\<close>, from the three rendered strings.\<close>

definition cache_key_of :: "string \<Rightarrow> string \<Rightarrow> string \<Rightarrow> string" where
  "cache_key_of func_name args kwargs = func_name @ '':'' @ args @ '':'' @ kwargs"

text \<open>The body of the \<open>try\<close> in the upsert loop: serialize, \<open>INSERT OR REPLACE\<close>,
  \<open>commit\<close>. The row is in the table once the commit has succeeded.\<close>

definition write_attempt ::
    "json_lib \<Rightarrow> string \<Rightarrow> pyobj \<Rightarrow> rat \<Rightarrow> world \<Rightarrow> exn option \<times> world" where
  "write_attempt js cache_key new_value current_time w =
     (case json_dumps js u_serialize_for_cache new_value of
        Inl e \<Rightarrow> (Some e, w)
      | Inr serialized_value \<Rightarrow>
          (case store_op w of
             (Some e, w1) \<Rightarrow> (Some e, w1)
           | (None, w1) \<Rightarrow>
               (case store_op w1 of
                  (Some e, w2) \<Rightarrow> (Some e, w2)
                | (None, w2) \<Rightarrow>
                    (None, w2\<lparr>rows := (rows w2)(cache_key \<mapsto> (serialized_value, current_time))\<rparr>))))"

function write_loop ::
    "json_lib \<Rightarrow> string \<Rightarrow> pyobj \<Rightarrow> rat \<Rightarrow> nat \<Rightarrow> world \<Rightarrow> exn option \<times> world" where
  "write_loop js cache_key new_value current_time attempt w =
     (if attempt < MAX_RETRIES then
        (case write_attempt js cache_key new_value current_time w of
           (None, w1) \<Rightarrow> (None, w1)
         | (Some e, w1) \<Rightarrow>
             if e = OperationalError then
               (if attempt = MAX_RETRIES - 1 then (Some e, w1)
                else write_loop js cache_key new_value current_time (attempt + 1)
                       (sleep (RETRY_DELAY * 2 ^ attempt) w1))
             else (Some e, w1))
      else (None, w))"
  by pat_completeness auto
termination
  by (relation "measure (\<lambda>(js, cache_key, new_value, current_time, attempt, w).
        MAX_RETRIES - attempt)") auto

declare write_loop.simps [simp del]

text \<open>The path after a miss: compute, store with retries, return the new value.\<close>

definition compute_and_store ::
    "json_lib \<Rightarrow> (nat \<Rightarrow> exn + pyobj) \<Rightarrow> string \<Rightarrow> rat \<Rightarrow> world \<Rightarrow> (exn + pyobj) \<times> world" where
  "compute_and_store js func cache_key current_time w =
     (case invoke func w of
        (Inl e, w1) \<Rightarrow> (Inl e, w1)
      | (Inr new_value, w1) \<Rightarrow>
          (case write_loop js cache_key new_value current_time 0 w1 of
             (Some e, w2) \<Rightarrow> (Inl e, w2)
           | (None, w2) \<Rightarrow> (Inr new_value, w2)))"

text \<open>The body of the \<open>with\<close> statement: create the table, read the row, answer from
  the row when it is fresh, otherwise compute and store.\<close>

definition with_block ::
    "json_lib \<Rightarrow> (nat \<Rightarrow> exn + pyobj) \<Rightarrow> rat \<Rightarrow> string \<Rightarrow> world \<Rightarrow> (exn + pyobj) \<times> world" where
  "with_block js func ttl_seconds cache_key w =
     (case store_op w of
        (Some e, w1) \<Rightarrow> (Inl e, w1)
      | (None, w1) \<Rightarrow>
          (case store_op w1 of
             (Some e, w2) \<Rightarrow> (Inl e, w2)
           | (None, w2) \<Rightarrow>
               (let result = rows w2 cache_key; current_time = clock w2 in
                case result of
                  None \<Rightarrow> compute_and_store js func cache_key current_time w2
                | Some (v, timestamp) \<Rightarrow>
                    if current_time - timestamp < ttl_seconds
                    then (json_loads js u_deserialize_from_cache v, w2)
                    else compute_and_store js func cache_key current_time w2)))"

definition is_sqlite_error :: "exn \<Rightarrow> bool" where
  "is_sqlite_error e = (e = OperationalError \<or> e = OtherSqliteError)"

text \<open>
  The wrapper that \<open>cache_result(table_name, ttl_seconds)\<close> puts around \<open>func\<close>. An
  exception of \<open>__enter__\<close> or of the \<open>with\<close> body reaches the handler
  \<open>except sqlite3.Error\<close>, which answers with \<open>func(*args, **kwargs)\<close>; any other
  exception leaves the wrapper.
\<close>

definition wrapper ::
    "json_lib \<Rightarrow> (nat \<Rightarrow> exn + pyobj) \<Rightarrow> rat \<Rightarrow> string \<Rightarrow> string \<Rightarrow> string \<Rightarrow> world
      \<Rightarrow> (exn + pyobj) \<times> world" where
  "wrapper js func ttl_seconds func_name args kwargs w =
     (let cache_key = cache_key_of func_name args kwargs in
      case (case RetryableDatabase_enter w of
              (Some e, w1) \<Rightarrow> (Inl e, w1)
            | (None, w1) \<Rightarrow> with_block js func ttl_seconds cache_key w1) of
        (Inl e, w') \<Rightarrow> if is_sqlite_error e then invoke func w' else (Inl e, w')
      | (Inr v, w') \<Rightarrow> (Inr v, w'))"

section \<open>rh\_api: Operation A, the simple percentage series\<close>

text \<open>
  The source's names that start with an underscore are written with the prefix \<open>u_\<close>.
  \<open>percentages_loop\<close> is the \<open>for h in historicals\<close> loop of
  \<open>_get_historical_portfolio_percentage\<close>, with the loop variables \<open>prev_close\<close> and
  \<open>percentages\<close> as arguments.
\<close>

fun percentages_loop :: "EquityHistorical list \<Rightarrow> rat \<Rightarrow> rat list \<Rightarrow> exn + rat list" where
  "percentages_loop [] prev_close percentages = Inr percentages"
| "percentages_loop (h # hs) prev_close percentages =
     (case py_truediv (close_equity h - prev_close) prev_close of
        Inl e \<Rightarrow> Inl e
      | Inr p \<Rightarrow> percentages_loop hs (close_equity h) (percentages @ [p]))"

definition u_get_historical_portfolio_percentage ::
    "EquityHistorical list \<Rightarrow> exn + PercentageDate list" where
  "u_get_historical_portfolio_percentage historicals =
     (if length historicals = 0 then Inr []
      else
        (case percentages_loop historicals (close_equity (hd historicals)) [] of
           Inl e \<Rightarrow> Inl e
         | Inr percentages \<Rightarrow>
             Inr (map (\<lambda>(h, p). \<lparr>date = ADatetime (begins_at h), percentage = p\<rparr>)
                    (zip historicals percentages))))"

section \<open>rh\_api: get\_bank\_transfers\<close>

text \<open>
  \<open>get_bank_transfers\<close> converts every raw transfer with \<open>convert_dict_to_typed_dict\<close>,
  drops the \<open>None\<close> results and sorts the rest with the key \<open>x["updated_at"]\<close>. Its
  argument here is \<open>transfers_list\<close>, the list of conversion results (\<open>None\<close> for a raw
  transfer that was not converted). Python's \<open>sorted\<close> is stable, as \<open>sort_key\<close> is.
\<close>

definition get_bank_transfers :: "BankTransfer option list \<Rightarrow> BankTransfer list" where
  "get_bank_transfers transfers_list =
     sort_key (\<lambda>x. dt_key (updated_at x))
       (concat (map (\<lambda>t. case t of None \<Rightarrow> [] | Some x \<Rightarrow> [x]) transfers_list))"

section \<open>rh\_api: Operation B, the deposit-adjusted running year-to-date return\<close>

text \<open>
  The objects that \<open>get_historical_portfolio\<close> and \<open>get_bank_transfers\<close> return live in
  a store, addressed by natural numbers; a Python list of them is a list of addresses.
  Two addresses are two objects, one address in two places is one shared object.
\<close>

record store =
  transfer_at :: "nat \<Rightarrow> BankTransfer"
  equity_at :: "nat \<Rightarrow> EquityHistorical"

text \<open>The loop \<open>for transfer in transfers: transfer["created_at"] -= timedelta(days=1)\<close>.
  It writes into the object that the list entry refers to. The first component of the
  result is the exception that ended the loop, if any.\<close>

fun shift_transfers :: "nat list \<Rightarrow> store \<Rightarrow> exn option \<times> store" where
  "shift_transfers [] s = (None, s)"
| "shift_transfers (a # as) s =
     (case minus_one_day (created_at (transfer_at s a)) of
        Inl e \<Rightarrow> (Some e, s)
      | Inr d \<Rightarrow>
          shift_transfers as
            (s\<lparr>transfer_at := (transfer_at s)(a := (transfer_at s a)\<lparr>created_at := d\<rparr>)\<rparr>))"

text \<open>The inner \<open>while\<close> loop: the merge-join pointer \<open>current_transfer_idx\<close> and the
  accumulator \<open>total_deposits\<close> are the loop state.\<close>

function consume_transfers ::
    "BankTransfer list \<Rightarrow> datetime \<Rightarrow> nat \<Rightarrow> rat \<Rightarrow> nat \<times> rat" where
  "consume_transfers transfers day_begins current_transfer_idx total_deposits =
     (if current_transfer_idx < length transfers
         \<and> dt_less (created_at (transfers ! current_transfer_idx)) day_begins
      then
        (let transfer = transfers ! current_transfer_idx in
         consume_transfers transfers day_begins (current_transfer_idx + 1)
           (if direction transfer = ''deposit'' \<and> state transfer = ''completed''
            then total_deposits + amount transfer else total_deposits))
      else (current_transfer_idx, total_deposits))"
  by pat_completeness auto
termination
  by (relation "measure (\<lambda>(transfers, day_begins, idx, acc). length transfers - idx)") auto

declare consume_transfers.simps [simp del]

text \<open>The loop \<open>for day in historical[1:]\<close>; the loop variable \<open>day\<close> is written
  \<open>cur_day\<close>, since \<open>day\<close> is a field of a timestamp.\<close>

fun ytd_loop ::
    "EquityHistorical list \<Rightarrow> BankTransfer list \<Rightarrow> rat \<Rightarrow> nat \<Rightarrow> rat \<Rightarrow> PercentageDate list
      \<Rightarrow> exn + PercentageDate list" where
  "ytd_loop [] transfers start_equity current_transfer_idx total_deposits percentages =
     Inr percentages"
| "ytd_loop (cur_day # days) transfers start_equity current_transfer_idx total_deposits percentages =
     (case consume_transfers transfers (begins_at cur_day) current_transfer_idx total_deposits of
        (idx', total') \<Rightarrow>
          (let adjusted_start = start_equity + total' in
           if adjusted_start \<noteq> 0 then
             (case py_truediv (close_equity cur_day - adjusted_start) adjusted_start of
                Inl e \<Rightarrow> Inl e
              | Inr p \<Rightarrow>
                  ytd_loop days transfers start_equity idx' total'
                    (percentages @ [\<lparr>date = ADatetime (begins_at cur_day), percentage = p\<rparr>]))
           else ytd_loop days transfers start_equity idx' total' percentages))"

text \<open>
  \<open>get_running_ytd_percentage\<close>. The two cached fetches at its start are its arguments:
  \<open>historical\<close> and \<open>transfers\<close> are the lists of addresses they returned. The result is
  the returned list or the exception raised, with the store as the call leaves it.
  \<open>historical[-1]\<close> raises \<open>IndexError\<close> on the empty list; \<open>historical[1:]\<close> of
  the empty list is empty.
\<close>

definition get_running_ytd_percentage ::
    "nat list \<Rightarrow> nat list \<Rightarrow> store \<Rightarrow> (exn + PercentageDate list) \<times> store" where
  "get_running_ytd_percentage historical transfers s =
     (case shift_transfers transfers s of
        (Some e, s') \<Rightarrow> (Inl e, s')
      | (None, s') \<Rightarrow>
          (if historical = [] then (Inl IndexError, s')
           else
             (let cur_year = year (begins_at (equity_at s' (last historical)));
                  start_equity = open_equity (equity_at s' (hd historical));
                  start_date = (cur_year, 1, 1);
                  historical' =
                    filter (\<lambda>h. start_date \<le> date_of (begins_at h)) (map (equity_at s') historical);
                  transfers' =
                    filter (\<lambda>t. start_date \<le> date_of (created_at t)) (map (transfer_at s') transfers)
              in (ytd_loop (tl historical') transfers' start_equity 0 0
                    [\<lparr>date = ADate start_date, percentage = 0\<rparr>], s'))))"

section \<open>Sample data\<close>

text \<open>
  Concrete values for the worked examples below, after the fixtures of the repository's
  tests: \<open>mk_datetime y m d\<close> is \<open>datetime(y, m, d)\<close>, at midnight.
\<close>

definition mk_datetime :: "nat \<Rightarrow> nat \<Rightarrow> nat \<Rightarrow> datetime" where
  "mk_datetime y m d =
     \<lparr>year = y, month = m, day = d, hour = 0, minute = 0, second = 0, microsecond = 0\<rparr>"

definition sample_equity :: "datetime \<Rightarrow> rat \<Rightarrow> rat \<Rightarrow> EquityHistorical" where
  "sample_equity b opn cls =
     \<lparr>adjusted_open_equity = opn, adjusted_close_equity = cls, open_equity = opn,
      close_equity = cls, open_market_value = opn, close_market_value = cls,
      begins_at = b, net_return = 0, session = ''reg''\<rparr>"

definition sample_transfer ::
    "string \<Rightarrow> string \<Rightarrow> rat \<Rightarrow> datetime \<Rightarrow> datetime \<Rightarrow> BankTransfer" where
  "sample_transfer dir st amt created updated =
     \<lparr>id_t = ''test_id'', url = ''test_url'', ref_id = ''test_ref'', cancel = None,
      ach_relationship = ''test_ach'', account = ''test_account'', amount = amt,
      direction = dir, state = st, created_at = created, updated_at = updated\<rparr>"

text \<open>
  A year-long fetch made in January 2024: sample 0 lies in the previous year, samples 1
  and 2 in the current one. Every transfer address holds a completed deposit of 500
  created on 2024-01-03.
\<close>

definition sample_store :: store where
  "sample_store =
     \<lparr>transfer_at = (\<lambda>_. sample_transfer ''deposit'' ''completed'' 500
                         (mk_datetime 2024 1 3) (mk_datetime 2024 1 3)),
      equity_at = (\<lambda>_. sample_equity (mk_datetime 2023 6 1) 500 500)
                    (1 := sample_equity (mk_datetime 2024 1 2) 1000 1000,
                     2 := sample_equity (mk_datetime 2024 1 3) 1000 1100)\<rparr>"

text \<open>
  An account opened with nothing: equity 0 on 2024-01-02, a close of 100 on 2024-01-03,
  and a completed deposit of 1000 created on 2024-01-05 that precedes the sample of
  2024-01-05 once shifted.
\<close>

definition empty_account_store :: store where
  "empty_account_store =
     \<lparr>transfer_at = (\<lambda>_. sample_transfer ''deposit'' ''completed'' 1000
                         (mk_datetime 2024 1 5) (mk_datetime 2024 1 5)),
      equity_at = (\<lambda>_. sample_equity (mk_datetime 2024 1 2) 0 0)
                    (1 := sample_equity (mk_datetime 2024 1 3) 0 100,
                     2 := sample_equity (mk_datetime 2024 1 5) 100 1100)\<rparr>"

text \<open>Four transfers in the order of their creation; only the third is a completed
  deposit created before 2024-01-10.\<close>

definition sample_transfers :: "BankTransfer list" where
  "sample_transfers =
     [sample_transfer ''withdraw'' ''completed'' 300 (mk_datetime 2024 1 5) (mk_datetime 2024 1 5),
      sample_transfer ''deposit'' ''pending'' 200 (mk_datetime 2024 1 6) (mk_datetime 2024 1 6),
      sample_transfer ''deposit'' ''completed'' 500 (mk_datetime 2024 1 7) (mk_datetime 2024 1 7),
      sample_transfer ''deposit'' ''completed'' 50 (mk_datetime 2024 2 1) (mk_datetime 2024 2 1)]"

text \<open>Two deposits: the one created first (2024-02-01) was updated last (2024-04-01).\<close>

definition slow_transfer :: BankTransfer where
  "slow_transfer =
     sample_transfer ''deposit'' ''completed'' 100 (mk_datetime 2024 2 1) (mk_datetime 2024 4 1)"

definition quick_transfer :: BankTransfer where
  "quick_transfer =
     sample_transfer ''deposit'' ''completed'' 200 (mk_datetime 2024 3 10) (mk_datetime 2024 3 11)"

text \<open>
  The two deposits as objects of a store (address 0 the quick one, every other address
  the slow one), with three samples of 2024: 2 January (open and close 1000),
  15 February (close 1200) and 20 March (close 1500).
\<close>

definition two_deposit_store :: store where
  "two_deposit_store =
     \<lparr>transfer_at = (\<lambda>_. slow_transfer)(0 := quick_transfer),
      equity_at = (\<lambda>_. sample_equity (mk_datetime 2024 3 20) 1200 1500)
                    (0 := sample_equity (mk_datetime 2024 1 2) 1000 1000,
                     1 := sample_equity (mk_datetime 2024 2 15) 1000 1200)\<rparr>"

text \<open>A timestamp with microseconds, on a leap day, five and a half hours behind UTC.\<close>

definition sample_instant :: timestamp where
  "sample_instant =
     \<lparr>year = 2024, month = 2, day = 29, hour = 12, minute = 30, second = 45, microsecond = 123,
      utcoffset = Some (- 330)\<rparr>"

text \<open>
  For the cache: a serializer that writes every value as \<open>10\<close> and reads every text
  as the number 10, a wrapped function that returns 10 (the test's \<open>x * 2\<close> at 5), one
  that returns the number of its invocation, and three worlds with an empty table: a
  healthy store, a store whose five connection attempts fail, and a store whose five
  insert attempts fail after the connection, the \<open>PRAGMA\<close>, the \<open>CREATE TABLE\<close> and
  the \<open>SELECT\<close> have succeeded.
\<close>

definition sample_json :: json_lib where
  "sample_json = \<lparr>json_dumps = (\<lambda>default v. Inr ''10''), json_loads = (\<lambda>hook s. Inr (PyInt 10))\<rparr>"

definition sample_func :: "nat \<Rightarrow> exn + pyobj" where
  "sample_func n = Inr (PyInt 10)"

definition numbered_func :: "nat \<Rightarrow> exn + pyobj" where
  "numbered_func n = Inr (PyInt (int n))"

definition fresh_world :: world where
  "fresh_world = \<lparr>rows = (\<lambda>k. None), clock = 1000, faults = [], calls = 0\<rparr>"

definition conn_down :: world where
  "conn_down =
     fresh_world\<lparr>faults := [Some OperationalError, Some OperationalError, Some OperationalError,
                             Some OperationalError, Some OperationalError]\<rparr>"

definition write_down :: world where
  "write_down =
     fresh_world\<lparr>faults := [None, None, None, None,
                             Some OperationalError, Some OperationalError, Some OperationalError,
                             Some OperationalError, Some OperationalError]\<rparr>"

text \<open>A healthy store half a second after the value \<open>10\<close> was cached for the test's call.\<close>

definition warm_world :: world where
  "warm_world =
     fresh_world\<lparr>rows := (\<lambda>k. None)(''test_function:(5,):{}'' \<mapsto> (''10'', 1000)),
                  clock := 1000 + 1 / 2\<rparr>"

text \<open>
  For the conversion: a library that parses one number and one timestamp of the API, and
  a raw transfer whose amount is not a number and whose creation date is not a date.
\<close>

definition sample_lib :: pylib where
  "sample_lib =
     \<lparr>float_of_str = (\<lambda>s. if s = ''1000.0'' then Some 1000 else None),
      datetime_of_str =
        (\<lambda>s. if s = ''2024-01-01T00:00:00+00:00''
             then Some \<lparr>year = 2024, month = 1, day = 1, hour = 0, minute = 0, second = 0,
                         microsecond = 0, utcoffset = Some 0\<rparr>
             else None)\<rparr>"

definition raw_transfer :: "(string \<times> pyobj) list" where
  "raw_transfer =
     [(''id'', PyStr ''test_id''), (''amount'', PyStr ''abc''), (''direction'', PyStr ''deposit''),
      (''state'', PyStr ''completed''), (''created_at'', PyStr ''yesterday''),
      (''updated_at'', PyStr ''2024-01-01T00:00:00Z'')]"

section \<open>Operation A: properties\<close>

lemma percentages_loop_nonzero:
  "prev \<noteq> 0 \<Longrightarrow> \<forall>h \<in> set hs. close_equity h \<noteq> 0 \<Longrightarrow>
   percentages_loop hs prev acc =
     Inr (acc @ map (\<lambda>(c, h). (close_equity h - c) / c) (zip (prev # map close_equity hs) hs))"
proof (induction hs arbitrary: prev acc)
  case Nil
  then show ?case by simp
next
  case (Cons h hs)
  then show ?case by (simp add: py_truediv_def)
qed

text \<open>
  C4. Operation A returns the empty list on the empty list. On \<open>N > 0\<close> samples whose
  closes are all nonzero it returns \<open>N\<close> pairs: pair \<open>n\<close> carries the date of sample \<open>n\<close>,
  the first percentage is \<open>0\<close>, and for \<open>n \<ge> 1\<close> the percentage is
  \<open>(close n - close (n - 1)) / close (n - 1)\<close>.
\<close>

theorem operation_a_series:
  "u_get_historical_portfolio_percentage [] = Inr [] \<and>
   (hs \<noteq> [] \<and> (\<forall>h \<in> set hs. close_equity h \<noteq> 0) \<longrightarrow>
    (\<exists>ps. u_get_historical_portfolio_percentage hs = Inr ps
      \<and> length ps = length hs
      \<and> percentage (ps ! 0) = 0
      \<and> (\<forall>n < length hs. date (ps ! n) = ADatetime (begins_at (hs ! n)))
      \<and> (\<forall>n. 1 \<le> n \<and> n < length hs \<longrightarrow>
            percentage (ps ! n) =
              (close_equity (hs ! n) - close_equity (hs ! (n - 1))) / close_equity (hs ! (n - 1)))))"
proof (intro conjI impI)
  show "u_get_historical_portfolio_percentage [] = Inr []"
    by (simp add: u_get_historical_portfolio_percentage_def)
next
  assume asm: "hs \<noteq> [] \<and> (\<forall>h \<in> set hs. close_equity h \<noteq> 0)"
  then have ne: "hs \<noteq> []" and nz: "\<forall>h \<in> set hs. close_equity h \<noteq> 0" by simp_all
  define cs where "cs = map close_equity hs"
  define qs where "qs = map (\<lambda>(c, h). (close_equity h - c) / c) (zip (hd cs # cs) hs)"
  define ps where
    "ps = map (\<lambda>(h, p). \<lparr>date = ADatetime (begins_at h), percentage = p\<rparr>) (zip hs qs)"
  from ne nz have hd_nz: "close_equity (hd hs) \<noteq> 0" by simp
  from ne have hd_cs: "hd cs = close_equity (hd hs)"
    by (simp add: cs_def hd_map)
  have loop: "percentages_loop hs (close_equity (hd hs)) [] = Inr qs"
    using percentages_loop_nonzero [OF hd_nz nz, of "[]"]
    by (simp add: qs_def cs_def hd_cs [unfolded cs_def])
  have res: "u_get_historical_portfolio_percentage hs = Inr ps"
    using ne by (simp add: u_get_historical_portfolio_percentage_def loop ps_def)
  have len_qs: "length qs = length hs" by (simp add: qs_def cs_def)
  have len: "length ps = length hs" by (simp add: ps_def len_qs)
  have q_nth: "qs ! n = (close_equity (hs ! n) - (hd cs # cs) ! n) / ((hd cs # cs) ! n)"
    if "n < length hs" for n
    using that by (simp add: qs_def cs_def)
  have p_nth: "ps ! n = \<lparr>date = ADatetime (begins_at (hs ! n)), percentage = qs ! n\<rparr>"
    if "n < length hs" for n
    using that by (simp add: ps_def len_qs)
  from ne have pos: "0 < length hs" by simp
  have first: "percentage (ps ! 0) = 0"
    using ne by (simp add: p_nth [OF pos] q_nth [OF pos] hd_cs hd_conv_nth)
  have dates: "\<forall>n < length hs. date (ps ! n) = ADatetime (begins_at (hs ! n))"
    by (simp add: p_nth)
  have later: "\<forall>n. 1 \<le> n \<and> n < length hs \<longrightarrow>
      percentage (ps ! n) =
        (close_equity (hs ! n) - close_equity (hs ! (n - 1))) / close_equity (hs ! (n - 1))"
  proof (intro allI impI)
    fix n assume n: "1 \<le> n \<and> n < length hs"
    then obtain k where k: "n = Suc k" by (cases n) auto
    with n have "k < length hs" by simp
    then have "(hd cs # cs) ! n = close_equity (hs ! k)" by (simp add: k cs_def)
    with n show "percentage (ps ! n) =
        (close_equity (hs ! n) - close_equity (hs ! (n - 1))) / close_equity (hs ! (n - 1))"
      by (simp add: p_nth q_nth k)
  qed
  from res len first dates later
  show "\<exists>ps. u_get_historical_portfolio_percentage hs = Inr ps
      \<and> length ps = length hs
      \<and> percentage (ps ! 0) = 0
      \<and> (\<forall>n < length hs. date (ps ! n) = ADatetime (begins_at (hs ! n)))
      \<and> (\<forall>n. 1 \<le> n \<and> n < length hs \<longrightarrow>
            percentage (ps ! n) =
              (close_equity (hs ! n) - close_equity (hs ! (n - 1))) / close_equity (hs ! (n - 1)))"
    by blast
qed

theorem operation_a_series_witness:
  "close_equity (sample_equity (mk_datetime 2024 1 1) 1000 1000) \<noteq> 0
   \<and> close_equity (sample_equity (mk_datetime 2024 1 2) 1000 1100) \<noteq> 0
   \<and> (\<exists>ps. u_get_historical_portfolio_percentage
              [sample_equity (mk_datetime 2024 1 1) 1000 1000,
               sample_equity (mk_datetime 2024 1 2) 1000 1100] = Inr ps
          \<and> length ps = 2 \<and> percentage (ps ! 0) = 0 \<and> percentage (ps ! 1) = 1 / 10)"
proof -
  let ?hs = "[sample_equity (mk_datetime 2024 1 1) 1000 1000,
              sample_equity (mk_datetime 2024 1 2) 1000 1100]"
  have nz: "?hs \<noteq> [] \<and> (\<forall>h \<in> set ?hs. close_equity h \<noteq> 0)"
    by (simp add: sample_equity_def)
  from operation_a_series [of ?hs] nz obtain ps where
    ps: "u_get_historical_portfolio_percentage ?hs = Inr ps" "length ps = length ?hs"
      "percentage (ps ! 0) = 0"
      "\<forall>n. 1 \<le> n \<and> n < length ?hs \<longrightarrow>
         percentage (ps ! n) =
           (close_equity (?hs ! n) - close_equity (?hs ! (n - 1))) / close_equity (?hs ! (n - 1))"
    by blast
  from ps(4) have "percentage (ps ! 1) = 1 / 10"
    by (simp add: sample_equity_def)
  with ps(1-3) show ?thesis
    by (auto simp: sample_equity_def)
qed

section \<open>Operation B: the merge-join over the transfers\<close>

lemma consume_transfers_sum:
  "snd (consume_transfers ts d idx total_deposits) =
     total_deposits +
     (\<Sum>t \<leftarrow> take (fst (consume_transfers ts d idx total_deposits) - idx) (drop idx ts).
        if direction t = ''deposit'' \<and> state t = ''completed'' then amount t else 0)
   \<and> idx \<le> fst (consume_transfers ts d idx total_deposits)"
proof (induction ts d idx total_deposits rule: consume_transfers.induct)
  case (1 ts d idx tot)
  let ?t = "ts ! idx"
  let ?tot' = "if direction ?t = ''deposit'' \<and> state ?t = ''completed'' then tot + amount ?t else tot"
  show ?case
  proof (cases "idx < length ts \<and> dt_less (created_at ?t) d")
    case True
    then have unf: "consume_transfers ts d idx tot = consume_transfers ts d (idx + 1) ?tot'"
      by (simp add: consume_transfers.simps [of ts d idx tot] Let_def)
    from "1.IH" [OF True refl] have IH:
      "snd (consume_transfers ts d (idx + 1) ?tot') = ?tot' +
        (\<Sum>t \<leftarrow> take (fst (consume_transfers ts d (idx + 1) ?tot') - (idx + 1)) (drop (idx + 1) ts).
          if direction t = ''deposit'' \<and> state t = ''completed'' then amount t else 0)"
      and le: "idx + 1 \<le> fst (consume_transfers ts d (idx + 1) ?tot')"
      by simp_all
    define j where "j = fst (consume_transfers ts d (idx + 1) ?tot')"
    from le have "j - idx = Suc (j - (idx + 1))" by (simp add: j_def)
    moreover from True have "drop idx ts = ?t # drop (idx + 1) ts"
      by (simp add: Cons_nth_drop_Suc)
    ultimately have "take (j - idx) (drop idx ts) = ?t # take (j - (idx + 1)) (drop (idx + 1) ts)"
      by simp
    with IH le show ?thesis
      unfolding unf j_def [symmetric] by simp
  next
    case False
    then have "consume_transfers ts d idx tot = (idx, tot)"
      by (auto simp: consume_transfers.simps [of ts d idx tot])
    then show ?thesis by simp
  qed
qed

text \<open>
  C6. When the merge-join loop for one day leaves the pointer at \<open>idx'\<close>, the transfers
  it consumed are those at the positions \<open>idx\<close> up to \<open>idx' - 1\<close>, and \<open>total_deposits\<close>
  has grown by the amounts of exactly those consumed transfers whose direction is
  \<open>deposit\<close> and whose state is \<open>completed\<close>; every other consumed transfer moved the
  pointer and added nothing.
\<close>

theorem merge_join_counts_completed_deposits:
  "consume_transfers transfers day_begins idx total_deposits = (idx', total_deposits') \<Longrightarrow>
   idx \<le> idx' \<and>
   total_deposits' =
     total_deposits +
     (\<Sum>t \<leftarrow> take (idx' - idx) (drop idx transfers).
        if direction t = ''deposit'' \<and> state t = ''completed'' then amount t else 0)"
  using consume_transfers_sum [of transfers day_begins idx total_deposits] by simp

theorem merge_join_counts_completed_deposits_witness:
  "consume_transfers sample_transfers (mk_datetime 2024 1 10) 0 0 = (3, 500)
   \<and> (500 :: rat) =
       0 + (\<Sum>t \<leftarrow> take (3 - 0) (drop 0 sample_transfers).
              if direction t = ''deposit'' \<and> state t = ''completed'' then amount t else 0)"
proof -
  have run: "consume_transfers sample_transfers (mk_datetime 2024 1 10) 0 0 = (3, 500)"
    by (simp add: consume_transfers.simps sample_transfers_def sample_transfer_def
        mk_datetime_def dt_less_def dt_key_def)
  from merge_join_counts_completed_deposits [OF run] run show ?thesis by simp
qed

section \<open>Operation B: the guarded division\<close>

lemma ytd_loop_returns: "\<exists>ps. ytd_loop days ts se idx tot acc = Inr ps"
proof (induction days arbitrary: idx tot acc)
  case Nil
  then show ?case by simp
next
  case (Cons d days)
  then show ?case
    by (simp add: py_truediv_def Let_def split: prod.splits)
qed

lemma ytd_loop_no_exception: "ytd_loop days ts se idx tot acc \<noteq> Inl e"
  using ytd_loop_returns [of days ts se idx tot acc] by auto

lemma shift_transfers_exception:
  "shift_transfers as s = (Some e, s') \<Longrightarrow> e = OverflowError"
  by (induction as arbitrary: s)
     (auto simp: minus_one_day_def split: if_splits sum.splits)

lemma get_running_ytd_no_zero_division:
  "fst (get_running_ytd_percentage historical transfers s) \<noteq> Inl ZeroDivisionError"
proof (cases "shift_transfers transfers s")
  case (Pair r s')
  show ?thesis
  proof (cases r)
    case None
    with Pair show ?thesis
      by (simp add: get_running_ytd_percentage_def Let_def ytd_loop_no_exception)
  next
    case (Some e)
    with Pair shift_transfers_exception [of transfers s e s'] show ?thesis
      by (simp add: get_running_ytd_percentage_def)
  qed
qed

lemma ytd_loop_points:
  "ytd_loop days ts se idx tot acc = Inr ps \<Longrightarrow>
   \<exists>qs. ps = acc @ qs \<and> length qs \<le> length days \<and>
     (\<forall>q \<in> set qs. \<exists>d \<in> set days. \<exists>t. se + t \<noteq> 0 \<and>
        q = \<lparr>date = ADatetime (begins_at d),
             percentage = (close_equity d - (se + t)) / (se + t)\<rparr>)"
proof (induction days arbitrary: idx tot acc)
  case Nil
  then show ?case by simp
next
  case (Cons d days)
  obtain idx' tot' where c: "consume_transfers ts (begins_at d) idx tot = (idx', tot')"
    by (cases "consume_transfers ts (begins_at d) idx tot")
  show ?case
  proof (cases "se + tot' = 0")
    case True
    with Cons.prems c have "ytd_loop days ts se idx' tot' acc = Inr ps" by simp
    from Cons.IH [OF this] obtain qs where
      "ps = acc @ qs" "length qs \<le> length days"
      "\<forall>q \<in> set qs. \<exists>d \<in> set days. \<exists>t. se + t \<noteq> 0 \<and>
        q = \<lparr>date = ADatetime (begins_at d),
             percentage = (close_equity d - (se + t)) / (se + t)\<rparr>"
      by blast
    then show ?thesis by (intro exI [of _ qs]) auto
  next
    case False
    let ?p = "\<lparr>date = ADatetime (begins_at d),
               percentage = (close_equity d - (se + tot')) / (se + tot')\<rparr>"
    from False Cons.prems c have "ytd_loop days ts se idx' tot' (acc @ [?p]) = Inr ps"
      by (simp add: py_truediv_def Let_def)
    from Cons.IH [OF this] obtain qs where
      qs: "ps = (acc @ [?p]) @ qs" "length qs \<le> length days"
      "\<forall>q \<in> set qs. \<exists>d \<in> set days. \<exists>t. se + t \<noteq> 0 \<and>
        q = \<lparr>date = ADatetime (begins_at d),
             percentage = (close_equity d - (se + t)) / (se + t)\<rparr>"
      by blast
    have "\<forall>q \<in> set (?p # qs). \<exists>d' \<in> set (d # days). \<exists>t. se + t \<noteq> 0 \<and>
        q = \<lparr>date = ADatetime (begins_at d'),
             percentage = (close_equity d' - (se + t)) / (se + t)\<rparr>"
    proof
      fix q assume "q \<in> set (?p # qs)"
      then consider "q = ?p" | "q \<in> set qs" by auto
      then show "\<exists>d' \<in> set (d # days). \<exists>t. se + t \<noteq> 0 \<and>
        q = \<lparr>date = ADatetime (begins_at d'),
             percentage = (close_equity d' - (se + t)) / (se + t)\<rparr>"
      proof cases
        case 1
        with False show ?thesis by auto
      next
        case 2
        with qs(3) show ?thesis by auto
      qed
    qed
    with qs(1,2) show ?thesis by (intro exI [of _ "?p # qs"]) auto
  qed
qed

text \<open>
  C7. The walk over the days never raises, and \<open>get_running_ytd_percentage\<close> never
  raises \<open>ZeroDivisionError\<close>. For one day, with the pointer and the total that the
  merge-join leaves: when \<open>start_equity + total_deposits\<close> is 0 the walk goes on with
  the list of points unchanged, otherwise it appends the one point of that day. So the
  walk adds at most one point for each day, and every point it adds is the point of a
  day, computed from a baseline that is not 0.
\<close>

theorem ytd_zero_baseline_day_is_skipped:
  "(\<exists>ps. ytd_loop days transfers start_equity idx total_deposits percentages = Inr ps)
   \<and> fst (get_running_ytd_percentage historical transfer_refs s) \<noteq> Inl ZeroDivisionError
   \<and> ytd_loop (cur_day # days) transfers start_equity idx total_deposits percentages =
       (case consume_transfers transfers (begins_at cur_day) idx total_deposits of
          (idx', total_deposits') \<Rightarrow>
            if start_equity + total_deposits' = 0
            then ytd_loop days transfers start_equity idx' total_deposits' percentages
            else ytd_loop days transfers start_equity idx' total_deposits'
                   (percentages @
                    [\<lparr>date = ADatetime (begins_at cur_day),
                      percentage = (close_equity cur_day - (start_equity + total_deposits'))
                                   / (start_equity + total_deposits')\<rparr>]))
   \<and> (ytd_loop days transfers start_equity idx total_deposits percentages = Inr points \<longrightarrow>
        (\<exists>qs. points = percentages @ qs \<and> length qs \<le> length days \<and>
           (\<forall>q \<in> set qs. \<exists>d \<in> set days. \<exists>t. start_equity + t \<noteq> 0 \<and>
              q = \<lparr>date = ADatetime (begins_at d),
                   percentage = (close_equity d - (start_equity + t)) / (start_equity + t)\<rparr>)))"
proof (intro conjI impI)
  show "\<exists>ps. ytd_loop days transfers start_equity idx total_deposits percentages = Inr ps"
    by (rule ytd_loop_returns)
  show "fst (get_running_ytd_percentage historical transfer_refs s) \<noteq> Inl ZeroDivisionError"
    by (rule get_running_ytd_no_zero_division)
  show "ytd_loop (cur_day # days) transfers start_equity idx total_deposits percentages =
       (case consume_transfers transfers (begins_at cur_day) idx total_deposits of
          (idx', total_deposits') \<Rightarrow>
            if start_equity + total_deposits' = 0
            then ytd_loop days transfers start_equity idx' total_deposits' percentages
            else ytd_loop days transfers start_equity idx' total_deposits'
                   (percentages @
                    [\<lparr>date = ADatetime (begins_at cur_day),
                      percentage = (close_equity cur_day - (start_equity + total_deposits'))
                                   / (start_equity + total_deposits')\<rparr>]))"
    by (simp add: py_truediv_def Let_def split: prod.splits)
next
  assume "ytd_loop days transfers start_equity idx total_deposits percentages = Inr points"
  then show "\<exists>qs. points = percentages @ qs \<and> length qs \<le> length days \<and>
           (\<forall>q \<in> set qs. \<exists>d \<in> set days. \<exists>t. start_equity + t \<noteq> 0 \<and>
              q = \<lparr>date = ADatetime (begins_at d),
                   percentage = (close_equity d - (start_equity + t)) / (start_equity + t)\<rparr>)"
    by (rule ytd_loop_points)
qed

theorem ytd_zero_baseline_day_is_skipped_witness:
  "open_equity (equity_at empty_account_store 0) + 0 = 0
   \<and> fst (get_running_ytd_percentage [0, 1, 2] [0] empty_account_store) =
       Inr [\<lparr>date = ADate (2024, 1, 1), percentage = 0\<rparr>,
            \<lparr>date = ADatetime (mk_datetime 2024 1 5), percentage = 1 / 10\<rparr>]
   \<and> (\<exists>qs. [\<lparr>date = ADate (2024, 1, 1), percentage = 0\<rparr>,
              \<lparr>date = ADatetime (mk_datetime 2024 1 5), percentage = 1 / 10\<rparr>]
             = [\<lparr>date = ADate (2024, 1, 1), percentage = 0\<rparr>] @ qs
           \<and> length qs \<le> 2)"
proof -
  let ?t = "sample_transfer ''deposit'' ''completed'' 1000 (mk_datetime 2024 1 4)
              (mk_datetime 2024 1 5)"
  let ?d1 = "sample_equity (mk_datetime 2024 1 3) 0 100"
  let ?d2 = "sample_equity (mk_datetime 2024 1 5) 100 1100"
  let ?p0 = "[\<lparr>date = ADate (2024, 1, 1), percentage = 0\<rparr>]"
  have c1: "consume_transfers [?t] (begins_at ?d1) 0 0 = (0, 0)"
    by (simp add: consume_transfers.simps sample_transfer_def sample_equity_def
        mk_datetime_def dt_less_def dt_key_def)
  have c2: "consume_transfers [?t] (begins_at ?d2) 0 0 = (1, 1000)"
    by (simp add: consume_transfers.simps sample_transfer_def sample_equity_def
        mk_datetime_def dt_less_def dt_key_def)
  from ytd_zero_baseline_day_is_skipped
    [where cur_day = ?d1 and days = "[?d2]" and transfers = "[?t]" and start_equity = 0
      and idx = 0 and total_deposits = 0 and percentages = ?p0] c1
  have skip: "ytd_loop [?d1, ?d2] [?t] 0 0 0 ?p0 = ytd_loop [?d2] [?t] 0 0 0 ?p0"
    by simp
  from ytd_zero_baseline_day_is_skipped
    [where cur_day = ?d2 and days = "[]" and transfers = "[?t]" and start_equity = 0
      and idx = 0 and total_deposits = 0 and percentages = ?p0] c2
  have emit: "ytd_loop [?d2] [?t] 0 0 0 ?p0 =
      Inr (?p0 @ [\<lparr>date = ADatetime (mk_datetime 2024 1 5), percentage = 1 / 10\<rparr>])"
    by (simp add: sample_equity_def)
  have "fst (get_running_ytd_percentage [0, 1, 2] [0] empty_account_store) =
      ytd_loop [?d1, ?d2] [?t] 0 0 0 ?p0"
    by (simp add: get_running_ytd_percentage_def empty_account_store_def sample_equity_def
        sample_transfer_def mk_datetime_def date_of_def minus_one_day_def Let_def)
  with skip emit have run: "fst (get_running_ytd_percentage [0, 1, 2] [0] empty_account_store) =
      Inr [\<lparr>date = ADate (2024, 1, 1), percentage = 0\<rparr>,
           \<lparr>date = ADatetime (mk_datetime 2024 1 5), percentage = 1 / 10\<rparr>]"
    by simp
  from skip emit have "ytd_loop [?d1, ?d2] [?t] 0 0 0 ?p0 =
      Inr [\<lparr>date = ADate (2024, 1, 1), percentage = 0\<rparr>,
           \<lparr>date = ADatetime (mk_datetime 2024 1 5), percentage = 1 / 10\<rparr>]"
    by simp
  with ytd_zero_baseline_day_is_skipped
    [where days = "[?d1, ?d2]" and transfers = "[?t]" and start_equity = 0
      and idx = 0 and total_deposits = 0 and percentages = ?p0
      and points = "[\<lparr>date = ADate (2024, 1, 1), percentage = 0\<rparr>,
           \<lparr>date = ADatetime (mk_datetime 2024 1 5), percentage = 1 / 10\<rparr>]"]
  have "\<exists>qs. [\<lparr>date = ADate (2024, 1, 1), percentage = 0\<rparr>,
              \<lparr>date = ADatetime (mk_datetime 2024 1 5), percentage = 1 / 10\<rparr>]
             = ?p0 @ qs
           \<and> length qs \<le> 2"
    by auto
  with run show ?thesis
    by (simp add: empty_account_store_def sample_equity_def)
qed

section \<open>Operation B: the shift of the transfer dates\<close>

lemma shift_transfers_frame:
  "shift_transfers as s = (r, s') \<Longrightarrow>
   equity_at s' = equity_at s \<and> (\<forall>a. a \<notin> set as \<longrightarrow> transfer_at s' a = transfer_at s a)"
proof (induction as arbitrary: s)
  case Nil
  then show ?case by simp
next
  case (Cons a as)
  show ?case
  proof (cases "minus_one_day (created_at (transfer_at s a))")
    case (Inl e)
    with Cons.prems show ?thesis by simp
  next
    case (Inr d)
    let ?s1 = "s\<lparr>transfer_at := (transfer_at s)(a := (transfer_at s a)\<lparr>created_at := d\<rparr>)\<rparr>"
    from Cons.prems Inr have "shift_transfers as ?s1 = (r, s')" by simp
    from Cons.IH [OF this] show ?thesis by simp
  qed
qed

lemma minus_one_day_defined:
  "(1, 1, 1) < date_of d \<Longrightarrow> \<exists>d'. minus_one_day d = Inr d'"
  by (auto simp: minus_one_day_def date_of_def)

lemma shift_transfers_distinct:
  "distinct as \<Longrightarrow> \<forall>a \<in> set as. (1, 1, 1) < date_of (created_at (transfer_at s a)) \<Longrightarrow>
   \<exists>s'. shift_transfers as s = (None, s') \<and>
     (\<forall>a \<in> set as. \<exists>d. minus_one_day (created_at (transfer_at s a)) = Inr d
         \<and> transfer_at s' a = (transfer_at s a)\<lparr>created_at := d\<rparr>)"
proof (induction as arbitrary: s)
  case Nil
  then show ?case by simp
next
  case (Cons a as)
  from Cons.prems obtain d where d: "minus_one_day (created_at (transfer_at s a)) = Inr d"
    using minus_one_day_defined by fastforce
  let ?s1 = "s\<lparr>transfer_at := (transfer_at s)(a := (transfer_at s a)\<lparr>created_at := d\<rparr>)\<rparr>"
  from Cons.prems have dist: "distinct as" and notin: "a \<notin> set as" by simp_all
  from Cons.prems notin
  have pre: "\<forall>b \<in> set as. (1, 1, 1) < date_of (created_at (transfer_at ?s1 b))"
    by auto
  from Cons.IH [OF dist pre] obtain s' where
    run: "shift_transfers as ?s1 = (None, s')" and
    each: "\<forall>b \<in> set as. \<exists>d'. minus_one_day (created_at (transfer_at ?s1 b)) = Inr d'
         \<and> transfer_at s' b = (transfer_at ?s1 b)\<lparr>created_at := d'\<rparr>"
    by blast
  from shift_transfers_frame [OF run] notin
  have keep: "transfer_at s' a = (transfer_at s a)\<lparr>created_at := d\<rparr>" by simp
  have "shift_transfers (a # as) s = (None, s')" using d run by simp
  moreover have "\<forall>b \<in> set (a # as). \<exists>d'. minus_one_day (created_at (transfer_at s b)) = Inr d'
         \<and> transfer_at s' b = (transfer_at s b)\<lparr>created_at := d'\<rparr>"
  proof
    fix b assume b: "b \<in> set (a # as)"
    show "\<exists>d'. minus_one_day (created_at (transfer_at s b)) = Inr d'
         \<and> transfer_at s' b = (transfer_at s b)\<lparr>created_at := d'\<rparr>"
    proof (cases "b = a")
      case True
      with d keep show ?thesis by simp
    next
      case False
      with b have "b \<in> set as" by simp
      with each False show ?thesis by auto
    qed
  qed
  ultimately show ?case by blast
qed

lemma get_running_ytd_store:
  "snd (get_running_ytd_percentage historical transfers s) = snd (shift_transfers transfers s)"
  by (simp add: get_running_ytd_percentage_def Let_def split: prod.splits option.splits)

text \<open>
  C9. \<open>get_running_ytd_percentage\<close> writes into the transfer objects it was handed.
  When the list holds each transfer object once and no transfer is dated 0001-01-01 (the
  day before which Python has no date), the store that the call leaves holds, at every
  address of the list, the same transfer with \<open>created_at\<close> one day earlier; every
  other transfer object and every equity sample is as before.
\<close>

theorem ytd_shifts_transfers_in_place:
  assumes "distinct transfers"
    and "\<forall>a \<in> set transfers. (1, 1, 1) < date_of (created_at (transfer_at s a))"
    and "get_running_ytd_percentage historical transfers s = (r, s')"
  shows "(\<forall>a \<in> set transfers.
            \<exists>d. minus_one_day (created_at (transfer_at s a)) = Inr d
               \<and> transfer_at s' a = (transfer_at s a)\<lparr>created_at := d\<rparr>)
         \<and> (\<forall>a. a \<notin> set transfers \<longrightarrow> transfer_at s' a = transfer_at s a)
         \<and> equity_at s' = equity_at s"
proof -
  from shift_transfers_distinct [OF assms(1,2)] obtain s1 where
    run: "shift_transfers transfers s = (None, s1)" and
    each: "\<forall>a \<in> set transfers.
            \<exists>d. minus_one_day (created_at (transfer_at s a)) = Inr d
               \<and> transfer_at s1 a = (transfer_at s a)\<lparr>created_at := d\<rparr>"
    by blast
  from assms(3) have "s' = snd (get_running_ytd_percentage historical transfers s)" by simp
  with run have s': "s' = s1" by (simp add: get_running_ytd_store)
  from shift_transfers_frame [OF run] each show ?thesis unfolding s' by blast
qed

theorem ytd_shifts_transfers_in_place_witness:
  "distinct [0 :: nat]
   \<and> (1, 1, 1) < date_of (created_at (transfer_at sample_store 0))
   \<and> created_at (transfer_at sample_store 0) = mk_datetime 2024 1 3
   \<and> created_at (transfer_at (snd (get_running_ytd_percentage [0, 1, 2] [0] sample_store)) 0)
       = mk_datetime 2024 1 2
   \<and> equity_at (snd (get_running_ytd_percentage [0, 1, 2] [0] sample_store))
       = equity_at sample_store"
proof -
  let ?run = "get_running_ytd_percentage [0, 1, 2] [0] sample_store"
  have d: "distinct [0 :: nat]" by simp
  have after: "\<forall>a \<in> set [0 :: nat]. (1, 1, 1) < date_of (created_at (transfer_at sample_store a))"
    by (simp add: sample_store_def sample_transfer_def mk_datetime_def date_of_def)
  have run: "?run = (fst ?run, snd ?run)" by simp
  from ytd_shifts_transfers_in_place [OF d after run]
  obtain dd where "minus_one_day (created_at (transfer_at sample_store 0)) = Inr dd"
    and "transfer_at (snd ?run) 0 = (transfer_at sample_store 0)\<lparr>created_at := dd\<rparr>"
    and eq: "equity_at (snd ?run) = equity_at sample_store"
    by auto
  then have "created_at (transfer_at (snd ?run) 0) = mk_datetime 2024 1 2"
    by (auto simp: sample_store_def sample_transfer_def mk_datetime_def minus_one_day_def)
  with after eq show ?thesis
    by (simp add: sample_store_def sample_transfer_def mk_datetime_def)
qed

section \<open>Operation B: the baseline of the year-to-date series\<close>

text \<open>
  C1. On a fetch whose first sample lies in the previous year (open equity 500) and whose
  first sample of the current year opens at 1000, the point of 2024-01-03 (close 1100) is
  measured against 500, the open equity of the first sample before the restriction to
  the current year: its percentage is \<open>(1100 - 500) / 500\<close>. Measured against the first
  sample that the restriction keeps it would be \<open>(1100 - 1000) / 1000\<close>.
\<close>

theorem ytd_baseline_is_prefilter_sample:
  "fst (get_running_ytd_percentage [0, 1, 2] [] sample_store) =
     Inr [\<lparr>date = ADate (2024, 1, 1), percentage = 0\<rparr>,
          \<lparr>date = ADatetime (mk_datetime 2024 1 3), percentage = 6 / 5\<rparr>]
   \<and> open_equity
        (hd (filter (\<lambda>h. (2024, 1, 1) \<le> date_of (begins_at h))
               (map (equity_at sample_store) [0, 1, 2]))) = 1000
   \<and> (1100 - 1000) / 1000 \<noteq> (6 / 5 :: rat)"
  by (simp add: get_running_ytd_percentage_def sample_store_def sample_equity_def
      mk_datetime_def date_of_def Let_def consume_transfers.simps py_truediv_def)

section \<open>get\_bank\_transfers: the order of the result\<close>

text \<open>
  C3. The result of \<open>get_bank_transfers\<close> is ordered by \<open>updated_at\<close>. Of two
  deposits of which the one created first was updated last, the result lists the
  later-created one first: it is not ordered by \<open>created_at\<close>. Operation B, fed the two
  in that order, does not count the deposit created on 1 February for the sample of
  15 February (baseline 1000, percentage 1/5); fed the two in the order of their
  creation it does (baseline 1100, percentage 1/11).
\<close>

theorem get_bank_transfers_orders_by_updated_at:
  "get_bank_transfers [Some slow_transfer, Some quick_transfer] = [quick_transfer, slow_transfer]
   \<and> dt_less (created_at slow_transfer) (created_at quick_transfer)
   \<and> \<not> sorted (map (\<lambda>x. dt_key (created_at x))
                 (get_bank_transfers [Some slow_transfer, Some quick_transfer]))
   \<and> sorted (map (\<lambda>x. dt_key (updated_at x))
               (get_bank_transfers [Some slow_transfer, Some quick_transfer]))
   \<and> map (transfer_at two_deposit_store) [0, 1] = [quick_transfer, slow_transfer]
   \<and> fst (get_running_ytd_percentage [0, 1, 2] [0, 1] two_deposit_store) =
       Inr [\<lparr>date = ADate (2024, 1, 1), percentage = 0\<rparr>,
            \<lparr>date = ADatetime (mk_datetime 2024 2 15), percentage = 1 / 5\<rparr>,
            \<lparr>date = ADatetime (mk_datetime 2024 3 20), percentage = 2 / 13\<rparr>]
   \<and> fst (get_running_ytd_percentage [0, 1, 2] [1, 0] two_deposit_store) =
       Inr [\<lparr>date = ADate (2024, 1, 1), percentage = 0\<rparr>,
            \<lparr>date = ADatetime (mk_datetime 2024 2 15), percentage = 1 / 11\<rparr>,
            \<lparr>date = ADatetime (mk_datetime 2024 3 20), percentage = 2 / 13\<rparr>]"
proof -
  have order: "get_bank_transfers [Some slow_transfer, Some quick_transfer]
      = [quick_transfer, slow_transfer]"
    by (simp add: get_bank_transfers_def slow_transfer_def quick_transfer_def
        sample_transfer_def mk_datetime_def dt_key_def)
  have created: "dt_less (created_at slow_transfer) (created_at quick_transfer)"
    by (simp add: slow_transfer_def quick_transfer_def sample_transfer_def mk_datetime_def
        dt_key_def dt_less_def)
  have not_created: "\<not> sorted (map (\<lambda>x. dt_key (created_at x)) [quick_transfer, slow_transfer])"
    by (simp add: slow_transfer_def quick_transfer_def sample_transfer_def mk_datetime_def
        dt_key_def)
  have updated: "sorted (map (\<lambda>x. dt_key (updated_at x)) [quick_transfer, slow_transfer])"
    by (simp add: slow_transfer_def quick_transfer_def sample_transfer_def mk_datetime_def
        dt_key_def)
  have refs: "map (transfer_at two_deposit_store) [0, 1] = [quick_transfer, slow_transfer]"
    by (simp add: two_deposit_store_def)
  have by_updated: "fst (get_running_ytd_percentage [0, 1, 2] [0, 1] two_deposit_store) =
       Inr [\<lparr>date = ADate (2024, 1, 1), percentage = 0\<rparr>,
            \<lparr>date = ADatetime (mk_datetime 2024 2 15), percentage = 1 / 5\<rparr>,
            \<lparr>date = ADatetime (mk_datetime 2024 3 20), percentage = 2 / 13\<rparr>]"
    by (simp add: get_running_ytd_percentage_def two_deposit_store_def sample_equity_def
        slow_transfer_def quick_transfer_def sample_transfer_def mk_datetime_def date_of_def
        minus_one_day_def days_in_month_def is_leap_def dt_less_def dt_key_def Let_def
        consume_transfers.simps py_truediv_def)
  have by_created: "fst (get_running_ytd_percentage [0, 1, 2] [1, 0] two_deposit_store) =
       Inr [\<lparr>date = ADate (2024, 1, 1), percentage = 0\<rparr>,
            \<lparr>date = ADatetime (mk_datetime 2024 2 15), percentage = 1 / 11\<rparr>,
            \<lparr>date = ADatetime (mk_datetime 2024 3 20), percentage = 2 / 13\<rparr>]"
    by (simp add: get_running_ytd_percentage_def two_deposit_store_def sample_equity_def
        slow_transfer_def quick_transfer_def sample_transfer_def mk_datetime_def date_of_def
        minus_one_day_def days_in_month_def is_leap_def dt_less_def dt_key_def Let_def
        consume_transfers.simps py_truediv_def)
  from order created not_created updated refs by_updated by_created show ?thesis by simp
qed

section \<open>The serialization hooks: round trip\<close>

lemma of_char_digit_char: "n < 10 \<Longrightarrow> (of_char (digit_char n) :: nat) = 48 + n"
  by (simp add: digit_char_def)

lemma isdigit_digit_char: "n < 10 \<Longrightarrow> isdigit (digit_char n)"
  by (simp add: isdigit_def of_char_digit_char)

lemma isdigit_zero: "isdigit (CHR ''0'')"
  by (simp add: isdigit_def)

lemma digits_nonempty: "digits n \<noteq> []"
  by (subst digits.simps) simp

lemma digits_all_digit: "list_all isdigit (digits n)"
proof (induction n rule: digits.induct)
  case (1 n)
  show ?case
  proof (cases "n < 10")
    case True
    then show ?thesis by (subst digits.simps) (simp add: isdigit_digit_char)
  next
    case False
    with "1.IH" show ?thesis by (subst digits.simps) (simp add: isdigit_digit_char)
  qed
qed

lemma digits_value: "foldl (\<lambda>acc c. 10 * acc + (of_char c - 48)) (0 :: nat) (digits n) = n"
proof (induction n rule: digits.induct)
  case (1 n)
  show ?case
  proof (cases "n < 10")
    case True
    then show ?thesis by (subst digits.simps) (simp add: of_char_digit_char)
  next
    case False
    with "1.IH" show ?thesis by (subst digits.simps) (simp add: of_char_digit_char)
  qed
qed

lemma digits_length: "n < 10 ^ k \<Longrightarrow> 0 < k \<Longrightarrow> length (digits n) \<le> k"
proof (induction n arbitrary: k rule: digits.induct)
  case (1 n)
  show ?case
  proof (cases "n < 10")
    case True
    with "1.prems" show ?thesis by (subst digits.simps) simp
  next
    case False
    from "1.prems" obtain j where k: "k = Suc j" by (cases k) auto
    with False "1.prems" have "0 < j" by (cases j) auto
    moreover from "1.prems" k have "n div 10 < 10 ^ j" by (simp add: less_mult_imp_div_less mult.commute)
    ultimately have "length (digits (n div 10)) \<le> j" using "1.IH" False by simp
    with False k show ?thesis by (subst digits.simps) simp
  qed
qed

lemma zero_pad_length: "n < 10 ^ k \<Longrightarrow> 0 < k \<Longrightarrow> length (zero_pad k n) = k"
  using digits_length [of n k] by (simp add: zero_pad_def)

lemma foldl_zeros:
  "foldl (\<lambda>acc c. 10 * acc + (of_char c - 48)) (0 :: nat) (replicate m (CHR ''0'')) = 0"
  by (induction m) simp_all

lemma parse_digits_zero_pad: "parse_digits (zero_pad k n) = Some n"
proof -
  have "list_all isdigit (zero_pad k n)"
    using digits_all_digit [of n] by (auto simp: zero_pad_def list_all_iff isdigit_zero)
  then show ?thesis
    by (simp add: parse_digits_def zero_pad_def digits_nonempty digits_value foldl_zeros)
qed

lemma format_offset_length:
  "\<bar>m\<bar> < 1440 \<Longrightarrow> length (format_offset (Some m)) = 6"
proof -
  assume a: "\<bar>m\<bar> < 1440"
  then have "nat \<bar>m\<bar> div 60 < 10 ^ 2" by simp
  moreover have "nat \<bar>m\<bar> mod 60 < 10 ^ 2" by simp
  ultimately show ?thesis
    by (simp add: format_offset_def zero_pad_length)
qed

lemma parse_format_offset:
  assumes "\<bar>m\<bar> < 1440"
  shows "parse_offset (format_offset (Some m)) = Some m"
proof -
  define a where "a = nat \<bar>m\<bar>"
  define hs where "hs = zero_pad 2 (a div 60)"
  define ms where "ms = zero_pad 2 (a mod 60)"
  from assms have h: "a div 60 < 10 ^ 2" by (simp add: a_def)
  have l: "a mod 60 < 10 ^ 2" by simp
  have lens: "length hs = 2" "length ms = 2"
    by (simp_all add: hs_def ms_def zero_pad_length [OF h] zero_pad_length [OF l])
  have vals: "parse_digits hs = Some (a div 60)" "parse_digits ms = Some (a mod 60)"
    by (simp_all add: hs_def ms_def parse_digits_zero_pad)
  have whole: "int (a div 60 * 60 + a mod 60) = \<bar>m\<bar>"
    by (simp add: a_def)
  have fmt: "format_offset (Some m) = (if m < 0 then ''-'' else ''+'') @ hs @ '':'' @ ms"
    by (simp add: format_offset_def hs_def ms_def a_def)
  show ?thesis
  proof (cases "m < 0")
    case True
    with whole have "- 1 * int (a div 60 * 60 + a mod 60) = m" by simp
    with True show ?thesis
      unfolding fmt parse_offset_def by (simp add: lens vals nth_append)
  next
    case False
    with whole have "1 * int (a div 60 * 60 + a mod 60) = m" by simp
    with False show ?thesis
      unfolding fmt parse_offset_def by (simp add: lens vals nth_append)
  qed
qed

lemma isoformat_roundtrip:
  assumes "valid_datetime d"
  shows "fromisoformat (isoformat d) = Inr d"
proof -
  from assms have y: "year d < 10 ^ 4" and mo: "month d < 10 ^ 2" and hh: "hour d < 10 ^ 2"
    and mi: "minute d < 10 ^ 2" and ss: "second d < 10 ^ 2" and us: "microsecond d < 10 ^ 6"
    by (simp_all add: valid_datetime_def)
  from assms have "day d \<le> 31"
    by (auto simp: valid_datetime_def days_in_month_def split: if_splits)
  then have dd: "day d < 10 ^ 2" by simp
  note len = zero_pad_length [OF y] zero_pad_length [OF mo] zero_pad_length [OF dd]
    zero_pad_length [OF hh] zero_pad_length [OF mi] zero_pad_length [OF ss]
    zero_pad_length [OF us]
  define body where "body =
     zero_pad 4 (year d) @ ''-'' @ zero_pad 2 (month d) @ ''-'' @ zero_pad 2 (day d) @ ''T''
     @ zero_pad 2 (hour d) @ '':'' @ zero_pad 2 (minute d) @ '':'' @ zero_pad 2 (second d)
     @ (if microsecond d \<noteq> 0 then ''.'' @ zero_pad 6 (microsecond d) else [])"
  have iso: "isoformat d = body @ format_offset (utcoffset d)"
    by (simp add: isoformat_def body_def)
  have blen: "length body = (if microsecond d \<noteq> 0 then 26 else 19)"
    by (simp add: body_def len)
  have rec: "\<lparr>year = year d, month = month d, day = day d, hour = hour d,
      minute = minute d, second = second d, microsecond = microsecond d,
      utcoffset = utcoffset d\<rparr> = d"
    by simp
  have fields:
    "body ! 4 = CHR ''-''" "body ! 7 = CHR ''-''" "body ! 13 = CHR '':''" "body ! 16 = CHR '':''"
    "parse_digits (take 4 body) = Some (year d)"
    "parse_digits (take 2 (drop 5 body)) = Some (month d)"
    "parse_digits (take 2 (drop 8 body)) = Some (day d)"
    "parse_digits (take 2 (drop 11 body)) = Some (hour d)"
    "parse_digits (take 2 (drop 14 body)) = Some (minute d)"
    "parse_digits (take 2 (drop 17 body)) = Some (second d)"
    by (simp_all add: body_def len nth_append parse_digits_zero_pad)
  have frac: "microsecond d \<noteq> 0 \<Longrightarrow>
      body ! 19 = CHR ''.'' \<and> parse_digits (drop 20 body) = Some (microsecond d)"
    by (simp add: body_def len nth_append parse_digits_zero_pad)
  have whole_sec: "microsecond d = 0 \<Longrightarrow> parse_digits (drop 17 body) = Some (second d)"
    by (simp add: body_def len parse_digits_zero_pad)
  show ?thesis
  proof (cases "utcoffset d")
    case None
    then have s: "isoformat d = body" by (simp add: iso format_offset_def)
    show ?thesis
    proof (cases "microsecond d = 0")
      case True
      with None rec have rec0: "\<lparr>year = year d, month = month d, day = day d, hour = hour d,
          minute = minute d, second = second d, microsecond = 0, utcoffset = None\<rparr> = d"
        by simp
      from True assms whole_sec show ?thesis
        unfolding s fromisoformat_def by (simp add: blen fields Let_def rec0)
    next
      case False
      with None rec have rec1: "\<lparr>year = year d, month = month d, day = day d, hour = hour d,
          minute = minute d, second = second d, microsecond = microsecond d,
          utcoffset = None\<rparr> = d"
        by simp
      from False assms frac show ?thesis
        unfolding s fromisoformat_def by (simp add: blen fields Let_def rec1)
    qed
  next
    case (Some m)
    with assms have m: "\<bar>m\<bar> < 1440" by (simp add: valid_datetime_def)
    define tz where "tz = format_offset (Some m)"
    have tzlen: "length tz = 6" by (simp add: tz_def format_offset_length [OF m])
    have tzparse: "parse_offset tz = Some m" by (simp add: tz_def parse_format_offset [OF m])
    have s: "isoformat d = body @ tz" by (simp add: iso Some tz_def)
    show ?thesis
    proof (cases "microsecond d = 0")
      case True
      with Some rec have rec0: "\<lparr>year = year d, month = month d, day = day d, hour = hour d,
          minute = minute d, second = second d, microsecond = 0, utcoffset = Some m\<rparr> = d"
        by simp
      from True assms whole_sec show ?thesis
        unfolding s fromisoformat_def by (simp add: blen tzlen tzparse fields Let_def rec0)
    next
      case False
      with Some rec have rec1: "\<lparr>year = year d, month = month d, day = day d, hour = hour d,
          minute = minute d, second = second d, microsecond = microsecond d,
          utcoffset = Some m\<rparr> = d"
        by simp
      from False assms frac show ?thesis
        unfolding s fromisoformat_def by (simp add: blen tzlen tzparse fields Let_def rec1)
    qed
  qed
qed

text \<open>
  C8. Decoding the tagged object that the encode hook makes of a timestamp gives the
  timestamp back, for every timestamp that Python can construct, naive or aware. The
  text format keeps the microseconds and the offset, so nothing is lost.
\<close>

theorem cache_hooks_roundtrip:
  "valid_datetime v \<Longrightarrow>
   u_deserialize_from_cache (u_serialize_for_cache (PyDatetime v)) = Inr (PyDatetime v)"
  by (simp add: u_serialize_for_cache_def u_deserialize_from_cache_def isoformat_roundtrip)

theorem cache_hooks_roundtrip_witness:
  "valid_datetime sample_instant
   \<and> u_serialize_for_cache (PyDatetime sample_instant)
       = PyDict [(''__datetime__'', PyStr ''2024-02-29T12:30:45.000123-05:30'')]
   \<and> u_deserialize_from_cache (u_serialize_for_cache (PyDatetime sample_instant))
       = Inr (PyDatetime sample_instant)"
proof -
  have v: "valid_datetime sample_instant"
    by (simp add: valid_datetime_def sample_instant_def days_in_month_def is_leap_def)
  have "isoformat sample_instant = ''2024-02-29T12:30:45.000123-05:30''"
    by code_simp
  then have "u_serialize_for_cache (PyDatetime sample_instant)
       = PyDict [(''__datetime__'', PyStr ''2024-02-29T12:30:45.000123-05:30'')]"
    by (simp add: u_serialize_for_cache_def)
  with v cache_hooks_roundtrip [OF v] show ?thesis by simp
qed

section \<open>The cached wrapper: what the store operations leave unchanged\<close>

lemma store_op_frame:
  "store_op w = (r, w') \<Longrightarrow> rows w' = rows w \<and> calls w' = calls w \<and> clock w' = clock w"
  by (auto simp: store_op_def split: list.splits)

lemma connect_frame:
  assumes "connect w = (r, w')"
  shows "rows w' = rows w \<and> calls w' = calls w"
proof (cases "store_op w")
  case (Pair r1 w1)
  note f1 = store_op_frame [OF Pair]
  show ?thesis
  proof (cases r1)
    case None
    with Pair assms have "store_op w1 = (r, w')" by (simp add: connect_def)
    from store_op_frame [OF this] f1 show ?thesis by simp
  next
    case (Some e)
    with Pair assms f1 show ?thesis by (simp add: connect_def)
  qed
qed

lemma enter_loop_frame:
  "enter_loop attempt w = (r, w') \<Longrightarrow> rows w' = rows w \<and> calls w' = calls w"
proof (induction attempt w rule: enter_loop.induct)
  case (1 attempt w)
  show ?case
  proof (cases "attempt < MAX_RETRIES")
    case False
    with "1.prems" show ?thesis by (simp add: enter_loop.simps [of attempt w])
  next
    case True
    obtain c w1 where c: "connect w = (c, w1)" by (cases "connect w")
    note fr = connect_frame [OF c]
    show ?thesis
    proof (cases "c = Some OperationalError \<and> attempt \<noteq> MAX_RETRIES - 1")
      case False
      with "1.prems" True c fr show ?thesis
        by (auto simp: enter_loop.simps [of attempt w] split: option.splits if_splits)
    next
      case retry: True
      let ?w2 = "sleep (RETRY_DELAY * 2 ^ attempt) w1"
      from "1.prems" True c retry have run: "enter_loop (attempt + 1) ?w2 = (r, w')"
        by (simp add: enter_loop.simps [of attempt w])
      from retry have cs: "c = Some OperationalError" and ne: "attempt \<noteq> MAX_RETRIES - 1"
        by simp_all
      from "1.IH" [OF True c [symmetric] cs refl ne run]
      have "rows w' = rows ?w2 \<and> calls w' = calls ?w2" .
      with fr show ?thesis by (simp add: sleep_def)
    qed
  qed
qed

section \<open>The cached wrapper on a healthy store\<close>

lemma store_op_healthy: "faults w = [] \<Longrightarrow> store_op w = (None, w)"
  by (simp add: store_op_def)

lemma enter_healthy: "faults w = [] \<Longrightarrow> RetryableDatabase_enter w = (None, w)"
  by (simp add: RetryableDatabase_enter_def enter_loop.simps [of 0 w] connect_def
      store_op_healthy MAX_RETRIES_def)

lemma write_healthy:
  "faults w = [] \<Longrightarrow> json_dumps js u_serialize_for_cache v = Inr sv \<Longrightarrow>
   write_loop js k v t 0 w = (None, w\<lparr>rows := (rows w)(k \<mapsto> (sv, t))\<rparr>)"
  by (simp add: write_loop.simps [of js k v t 0 w] write_attempt_def store_op_healthy
      MAX_RETRIES_def)

lemma miss_healthy:
  assumes "faults w = []"
    and "case rows w (cache_key_of name args kwargs) of
           None \<Rightarrow> True | Some (x, ts) \<Rightarrow> \<not> clock w - ts < ttl"
    and "func (calls w) = Inr new_value"
    and "json_dumps js u_serialize_for_cache new_value = Inr sv"
  shows "wrapper js func ttl name args kwargs w =
           (Inr new_value,
            w\<lparr>calls := calls w + 1,
              rows := (rows w)(cache_key_of name args kwargs \<mapsto> (sv, clock w))\<rparr>)"
proof -
  let ?w1 = "w\<lparr>calls := calls w + 1\<rparr>"
  have f: "faults ?w1 = []" using assms(1) by simp
  have "compute_and_store js func (cache_key_of name args kwargs) (clock w) w =
      (Inr new_value, ?w1\<lparr>rows := (rows ?w1)(cache_key_of name args kwargs \<mapsto> (sv, clock w))\<rparr>)"
    using assms(3) write_healthy [OF f assms(4)]
    by (simp add: compute_and_store_def invoke_def)
  with assms(1,2) show ?thesis
    by (auto simp: wrapper_def with_block_def enter_healthy store_op_healthy Let_def
        split: option.splits)
qed

lemma hit_healthy:
  assumes "faults w = []"
    and "rows w (cache_key_of name args kwargs) = Some (sv, ts)"
    and "clock w - ts < ttl"
    and "json_loads js u_deserialize_from_cache sv = Inr x"
  shows "wrapper js func ttl name args kwargs w = (Inr x, w)"
  using assms
  by (simp add: wrapper_def with_block_def enter_healthy store_op_healthy Let_def)

section \<open>The cached wrapper: hits\<close>

text \<open>
  C5. When the connection, the \<open>CREATE TABLE\<close> and the \<open>SELECT\<close> have succeeded, the
  row of the key exists and \<open>now - timestamp < ttl\<close> at the time the wrapper reads the
  clock, the wrapper returns the value that the row deserializes to and the wrapped
  function is not invoked. So, on a healthy store, a call that misses followed by an
  identical call less than \<open>ttl\<close> seconds later invokes the wrapped function once.
\<close>

theorem cache_hit_skips_computation:
  "(RetryableDatabase_enter w = (None, w1) \<and> store_op w1 = (None, w2)
      \<and> store_op w2 = (None, w3)
      \<and> rows w (cache_key_of name args kwargs) = Some (sv, ts) \<and> clock w3 - ts < ttl
      \<and> json_loads js u_deserialize_from_cache sv = Inr x \<longrightarrow>
    wrapper js func ttl name args kwargs w = (Inr x, w3)
      \<and> calls w3 = calls w \<and> rows w3 = rows w)
   \<and> (faults w = []
      \<and> (case rows w (cache_key_of name args kwargs) of
            None \<Rightarrow> True | Some (old, ts') \<Rightarrow> \<not> clock w - ts' < ttl)
      \<and> func (calls w) = Inr new_value
      \<and> json_dumps js u_serialize_for_cache new_value = Inr sv'
      \<and> json_loads js u_deserialize_from_cache sv' = Inr x'
      \<and> delta < ttl \<longrightarrow>
      (case wrapper js func ttl name args kwargs w of
         (r1, wa) \<Rightarrow>
           r1 = Inr new_value \<and> calls wa = calls w + 1
           \<and> (case wrapper js func ttl name args kwargs (wa\<lparr>clock := clock wa + delta\<rparr>) of
                 (r2, wb) \<Rightarrow> r2 = Inr x' \<and> calls wb = calls w + 1)))"
proof (intro conjI impI)
  assume a: "RetryableDatabase_enter w = (None, w1) \<and> store_op w1 = (None, w2)
      \<and> store_op w2 = (None, w3)
      \<and> rows w (cache_key_of name args kwargs) = Some (sv, ts) \<and> clock w3 - ts < ttl
      \<and> json_loads js u_deserialize_from_cache sv = Inr x"
  then have "rows w1 = rows w \<and> calls w1 = calls w"
    by (auto simp: RetryableDatabase_enter_def dest: enter_loop_frame)
  moreover from a have "rows w2 = rows w1 \<and> calls w2 = calls w1"
    and "rows w3 = rows w2 \<and> calls w3 = calls w2"
    by (auto dest: store_op_frame)
  ultimately have f3: "rows w3 = rows w" "calls w3 = calls w" by simp_all
  from f3 show "calls w3 = calls w" and "rows w3 = rows w" by simp_all
  from a f3 show "wrapper js func ttl name args kwargs w = (Inr x, w3)"
    by (simp add: wrapper_def with_block_def Let_def)
next
  assume b: "faults w = []
      \<and> (case rows w (cache_key_of name args kwargs) of
            None \<Rightarrow> True | Some (old, ts') \<Rightarrow> \<not> clock w - ts' < ttl)
      \<and> func (calls w) = Inr new_value
      \<and> json_dumps js u_serialize_for_cache new_value = Inr sv'
      \<and> json_loads js u_deserialize_from_cache sv' = Inr x'
      \<and> delta < ttl"
  let ?k = "cache_key_of name args kwargs"
  let ?wa = "w\<lparr>calls := calls w + 1, rows := (rows w)(?k \<mapsto> (sv', clock w))\<rparr>"
  let ?wa' = "?wa\<lparr>clock := clock ?wa + delta\<rparr>"
  from b have b1: "faults w = []"
    and b2: "case rows w ?k of None \<Rightarrow> True | Some (old, ts') \<Rightarrow> \<not> clock w - ts' < ttl"
    and b3: "func (calls w) = Inr new_value"
    and b4: "json_dumps js u_serialize_for_cache new_value = Inr sv'"
    and b5: "json_loads js u_deserialize_from_cache sv' = Inr x'"
    and b6: "delta < ttl"
    by simp_all
  have first: "wrapper js func ttl name args kwargs w = (Inr new_value, ?wa)"
    using miss_healthy [where w = w and func = func and js = js and ttl = ttl, OF b1 b2 b3 b4] .
  have c1: "faults ?wa' = []" using b1 by simp
  have c2: "rows ?wa' ?k = Some (sv', clock w)" by simp
  have c3: "clock ?wa' - clock w < ttl" using b6 by simp
  have second: "wrapper js func ttl name args kwargs ?wa' = (Inr x', ?wa')"
    using hit_healthy [where w = "?wa'" and func = func and js = js, OF c1 c2 c3 b5] .
  show "case wrapper js func ttl name args kwargs w of
         (r1, wa) \<Rightarrow>
           r1 = Inr new_value \<and> calls wa = calls w + 1
           \<and> (case wrapper js func ttl name args kwargs (wa\<lparr>clock := clock wa + delta\<rparr>) of
                 (r2, wb) \<Rightarrow> r2 = Inr x' \<and> calls wb = calls w + 1)"
    using second unfolding first by simp
qed

theorem cache_hit_skips_computation_witness:
  "RetryableDatabase_enter warm_world = (None, warm_world)
   \<and> store_op warm_world = (None, warm_world)
   \<and> rows warm_world (cache_key_of ''test_function'' ''(5,)'' ''{}'') = Some (''10'', 1000)
   \<and> clock warm_world - 1000 < (1 :: rat)
   \<and> json_loads sample_json u_deserialize_from_cache ''10'' = Inr (PyInt 10)
   \<and> wrapper sample_json sample_func 1 ''test_function'' ''(5,)'' ''{}'' warm_world
       = (Inr (PyInt 10), warm_world)
   \<and> faults fresh_world = []
   \<and> rows fresh_world (cache_key_of ''test_function'' ''(5,)'' ''{}'') = None
   \<and> fst (wrapper sample_json sample_func 1 ''test_function'' ''(5,)'' ''{}'' fresh_world)
       = Inr (PyInt 10)
   \<and> calls (snd (wrapper sample_json sample_func 1 ''test_function'' ''(5,)'' ''{}''
         ((snd (wrapper sample_json sample_func 1 ''test_function'' ''(5,)'' ''{}'' fresh_world))
            \<lparr>clock := clock (snd (wrapper sample_json sample_func 1 ''test_function'' ''(5,)''
                                      ''{}'' fresh_world)) + 1 / 2\<rparr>))) = 1"
proof -
  let ?k = "cache_key_of ''test_function'' ''(5,)'' ''{}''"
  have h1: "RetryableDatabase_enter warm_world = (None, warm_world)"
    by (simp add: enter_healthy warm_world_def fresh_world_def)
  have h2: "store_op warm_world = (None, warm_world)"
    by (simp add: store_op_healthy warm_world_def fresh_world_def)
  have h3: "rows warm_world ?k = Some (''10'', 1000)"
    by (simp add: warm_world_def fresh_world_def cache_key_of_def)
  have h4: "clock warm_world - 1000 < (1 :: rat)"
    by (simp add: warm_world_def fresh_world_def)
  have h5: "json_loads sample_json u_deserialize_from_cache ''10'' = Inr (PyInt 10)"
    by (simp add: sample_json_def)
  from cache_hit_skips_computation
    [of warm_world warm_world warm_world warm_world "''test_function''" "''(5,)''" "''{}''"
        "''10''" 1000 1 sample_json "PyInt 10" sample_func]
    h1 h2 h3 h4 h5
  have hit: "wrapper sample_json sample_func 1 ''test_function'' ''(5,)'' ''{}'' warm_world
       = (Inr (PyInt 10), warm_world)"
    by simp
  have g1: "faults fresh_world = []" and g2: "rows fresh_world ?k = None"
    and g3: "sample_func (calls fresh_world) = Inr (PyInt 10)"
    and g4: "json_dumps sample_json u_serialize_for_cache (PyInt 10) = Inr ''10''"
    by (simp_all add: fresh_world_def sample_func_def sample_json_def)
  from cache_hit_skips_computation
    [of fresh_world _ _ _ "''test_function''" "''(5,)''" "''{}''" _ _ 1 sample_json _
        sample_func "PyInt 10" "''10''" "PyInt 10" "1 / 2"]
    g1 g2 g3 g4 h5
  have two: "case wrapper sample_json sample_func 1 ''test_function'' ''(5,)'' ''{}'' fresh_world of
         (r1, wa) \<Rightarrow>
           r1 = Inr (PyInt 10) \<and> calls wa = calls fresh_world + 1
           \<and> (case wrapper sample_json sample_func 1 ''test_function'' ''(5,)'' ''{}''
                        (wa\<lparr>clock := clock wa + 1 / 2\<rparr>) of
                 (r2, wb) \<Rightarrow> r2 = Inr (PyInt 10) \<and> calls wb = calls fresh_world + 1)"
    by simp
  then have t1: "fst (wrapper sample_json sample_func 1 ''test_function'' ''(5,)'' ''{}''
        fresh_world) = Inr (PyInt 10)"
    and t2: "calls (snd (wrapper sample_json sample_func 1 ''test_function'' ''(5,)'' ''{}''
         ((snd (wrapper sample_json sample_func 1 ''test_function'' ''(5,)'' ''{}'' fresh_world))
            \<lparr>clock := clock (snd (wrapper sample_json sample_func 1 ''test_function'' ''(5,)''
                                      ''{}'' fresh_world)) + 1 / 2\<rparr>))) = 1"
    by (simp_all add: case_prod_beta fresh_world_def)
  from h1 h2 h3 h4 h5 hit g1 g2 t1 t2 show ?thesis by blast
qed

section \<open>The cached wrapper: store contention after the last retry\<close>

lemma enter_five_failures:
  "faults w = [Some OperationalError, Some OperationalError, Some OperationalError,
               Some OperationalError, Some OperationalError] @ rest \<Longrightarrow>
   RetryableDatabase_enter w = (Some OperationalError, w\<lparr>faults := rest, clock := clock w + 3 / 2\<rparr>)"
  by (simp add: RetryableDatabase_enter_def enter_loop.simps connect_def store_op_def sleep_def
      MAX_RETRIES_def RETRY_DELAY_def)

lemma write_five_failures:
  "json_dumps js u_serialize_for_cache v = Inr sv \<Longrightarrow>
   faults w = [Some OperationalError, Some OperationalError, Some OperationalError,
               Some OperationalError, Some OperationalError] @ rest \<Longrightarrow>
   write_loop js k v t 0 w = (Some OperationalError, w\<lparr>faults := rest, clock := clock w + 3 / 2\<rparr>)"
  by (simp add: write_loop.simps write_attempt_def store_op_def sleep_def
      MAX_RETRIES_def RETRY_DELAY_def)

lemma enter_raises_fallback:
  "RetryableDatabase_enter w = (Some OperationalError, w1) \<Longrightarrow>
   wrapper js func ttl name args kwargs w = invoke func w1"
  by (simp add: wrapper_def is_sqlite_error_def)

lemma upsert_raises_fallback:
  assumes "RetryableDatabase_enter w = (None, w1)"
    and "store_op w1 = (None, w2)" and "store_op w2 = (None, w3)"
    and "case rows w3 (cache_key_of name args kwargs) of
           None \<Rightarrow> True | Some (x, ts) \<Rightarrow> \<not> clock w3 - ts < ttl"
    and "invoke func w3 = (Inr v, w4)"
    and "write_loop js (cache_key_of name args kwargs) v (clock w3) 0 w4
           = (Some OperationalError, w5)"
  shows "wrapper js func ttl name args kwargs w = invoke func w5"
  using assms
  by (auto simp: wrapper_def with_block_def compute_and_store_def is_sqlite_error_def Let_def
      split: option.splits)

text \<open>
  C2. The store error does not reach the caller of the wrapper. With five failing
  connection attempts the caller receives the value of the wrapped function; with five
  failing inserts the caller receives the value of a second invocation of the wrapped
  function (here the invocation number 1), and the function has been invoked twice.
\<close>

theorem store_contention_reaches_caller_counterexample:
  "fst (wrapper sample_json numbered_func 3600 ''test_function'' ''(5,)'' ''{}'' conn_down)
     = Inr (PyInt 0)
   \<and> fst (wrapper sample_json numbered_func 3600 ''test_function'' ''(5,)'' ''{}'' write_down)
     = Inr (PyInt 1)
   \<and> calls (snd (wrapper sample_json numbered_func 3600 ''test_function'' ''(5,)'' ''{}''
                   write_down)) = 2"
  by (simp add: wrapper_def with_block_def compute_and_store_def RetryableDatabase_enter_def
      enter_loop.simps write_loop.simps write_attempt_def connect_def store_op_def sleep_def
      invoke_def is_sqlite_error_def MAX_RETRIES_def RETRY_DELAY_def conn_down_def
      write_down_def fresh_world_def sample_json_def numbered_func_def Let_def)

text \<open>
  C2, what holds instead. Five consecutive contention errors make \<open>__enter__\<close>, and
  likewise the upsert loop, raise \<open>OperationalError\<close> after sleeps of 1.5 seconds in
  total. The wrapper's handler for \<open>sqlite3.Error\<close> catches that error: when
  \<open>__enter__\<close> raised it, the wrapper's outcome is that of invoking the wrapped
  function; when the upsert loop raised it, the value computed before is dropped and the
  wrapper's outcome is that of invoking the wrapped function once more. In neither case
  does the store error reach the caller.
\<close>

theorem store_contention_falls_back_to_uncached:
  "(faults w = [Some OperationalError, Some OperationalError, Some OperationalError,
                Some OperationalError, Some OperationalError] @ rest \<longrightarrow>
      RetryableDatabase_enter w
        = (Some OperationalError, w\<lparr>faults := rest, clock := clock w + 3 / 2\<rparr>))
   \<and> (json_dumps js u_serialize_for_cache v = Inr sv
       \<and> faults w = [Some OperationalError, Some OperationalError, Some OperationalError,
                     Some OperationalError, Some OperationalError] @ rest \<longrightarrow>
      write_loop js k v t 0 w
        = (Some OperationalError, w\<lparr>faults := rest, clock := clock w + 3 / 2\<rparr>))
   \<and> (RetryableDatabase_enter w = (Some OperationalError, w1) \<longrightarrow>
      wrapper js func ttl name args kwargs w = invoke func w1)
   \<and> (RetryableDatabase_enter w = (None, w1) \<and> store_op w1 = (None, w2)
       \<and> store_op w2 = (None, w3)
       \<and> (case rows w3 (cache_key_of name args kwargs) of
             None \<Rightarrow> True | Some (old, ts) \<Rightarrow> \<not> clock w3 - ts < ttl)
       \<and> invoke func w3 = (Inr v, w4)
       \<and> write_loop js (cache_key_of name args kwargs) v (clock w3) 0 w4
           = (Some OperationalError, w5) \<longrightarrow>
      wrapper js func ttl name args kwargs w = invoke func w5)"
proof (intro conjI impI)
  assume "faults w = [Some OperationalError, Some OperationalError, Some OperationalError,
                Some OperationalError, Some OperationalError] @ rest"
  then show "RetryableDatabase_enter w
        = (Some OperationalError, w\<lparr>faults := rest, clock := clock w + 3 / 2\<rparr>)"
    by (rule enter_five_failures)
next
  assume "json_dumps js u_serialize_for_cache v = Inr sv
       \<and> faults w = [Some OperationalError, Some OperationalError, Some OperationalError,
                     Some OperationalError, Some OperationalError] @ rest"
  then show "write_loop js k v t 0 w
        = (Some OperationalError, w\<lparr>faults := rest, clock := clock w + 3 / 2\<rparr>)"
    by (simp add: write_five_failures)
next
  assume "RetryableDatabase_enter w = (Some OperationalError, w1)"
  then show "wrapper js func ttl name args kwargs w = invoke func w1"
    by (rule enter_raises_fallback)
next
  assume a: "RetryableDatabase_enter w = (None, w1) \<and> store_op w1 = (None, w2)
       \<and> store_op w2 = (None, w3)
       \<and> (case rows w3 (cache_key_of name args kwargs) of
             None \<Rightarrow> True | Some (old, ts) \<Rightarrow> \<not> clock w3 - ts < ttl)
       \<and> invoke func w3 = (Inr v, w4)
       \<and> write_loop js (cache_key_of name args kwargs) v (clock w3) 0 w4
           = (Some OperationalError, w5)"
  then show "wrapper js func ttl name args kwargs w = invoke func w5"
    using upsert_raises_fallback [where w = w and func = func and js = js and ttl = ttl
        and ?w1.0 = w1 and ?w2.0 = w2 and ?w3.0 = w3 and ?w4.0 = w4 and ?w5.0 = w5
        and v = v and name = name and args = args and kwargs = kwargs]
    by simp
qed

theorem store_contention_falls_back_to_uncached_witness:
  "faults conn_down = [Some OperationalError, Some OperationalError, Some OperationalError,
                       Some OperationalError, Some OperationalError] @ []
   \<and> RetryableDatabase_enter conn_down
       = (Some OperationalError, conn_down\<lparr>faults := [], clock := clock conn_down + 3 / 2\<rparr>)
   \<and> wrapper sample_json numbered_func 3600 ''test_function'' ''(5,)'' ''{}'' conn_down
       = invoke numbered_func (conn_down\<lparr>faults := [], clock := clock conn_down + 3 / 2\<rparr>)
   \<and> wrapper sample_json numbered_func 3600 ''test_function'' ''(5,)'' ''{}'' write_down
       = invoke numbered_func
           (write_down\<lparr>faults := [], calls := 1, clock := clock write_down + 3 / 2\<rparr>)"
proof -
  let ?f = "Some OperationalError"
  let ?k = "cache_key_of ''test_function'' ''(5,)'' ''{}''"
  let ?c1 = "conn_down\<lparr>faults := [], clock := clock conn_down + 3 / 2\<rparr>"
  have c0: "faults conn_down = [?f, ?f, ?f, ?f, ?f] @ []"
    by (simp add: conn_down_def)
  note thm_c = store_contention_falls_back_to_uncached
    [where w = conn_down and rest = "[]" and ?w1.0 = ?c1 and js = sample_json
      and func = numbered_func and ttl = 3600 and name = "''test_function''"
      and args = "''(5,)''" and kwargs = "''{}''"]
  from thm_c c0 have c_enter: "RetryableDatabase_enter conn_down = (?f, ?c1)" by blast
  with thm_c have c_wrap:
    "wrapper sample_json numbered_func 3600 ''test_function'' ''(5,)'' ''{}'' conn_down
       = invoke numbered_func ?c1"
    by blast
  let ?w1 = "write_down\<lparr>faults := [None, None, ?f, ?f, ?f, ?f, ?f]\<rparr>"
  let ?w2 = "write_down\<lparr>faults := [None, ?f, ?f, ?f, ?f, ?f]\<rparr>"
  let ?w3 = "write_down\<lparr>faults := [?f, ?f, ?f, ?f, ?f]\<rparr>"
  let ?w4 = "write_down\<lparr>faults := [?f, ?f, ?f, ?f, ?f], calls := 1\<rparr>"
  let ?w5 = "write_down\<lparr>faults := [], calls := 1, clock := clock write_down + 3 / 2\<rparr>"
  have u1: "RetryableDatabase_enter write_down = (None, ?w1)"
    by (simp add: RetryableDatabase_enter_def enter_loop.simps [of 0] connect_def store_op_def
        MAX_RETRIES_def write_down_def fresh_world_def)
  have u2: "store_op ?w1 = (None, ?w2)" and u3: "store_op ?w2 = (None, ?w3)"
    by (simp_all add: store_op_def)
  have u4: "case rows ?w3 ?k of None \<Rightarrow> True | Some (old, ts) \<Rightarrow> \<not> clock ?w3 - ts < 3600"
    by (simp add: write_down_def fresh_world_def)
  have u5: "invoke numbered_func ?w3 = (Inr (PyInt 0), ?w4)"
    by (simp add: invoke_def numbered_func_def write_down_def fresh_world_def)
  have d: "json_dumps sample_json u_serialize_for_cache (PyInt 0) = Inr ''10''"
    by (simp add: sample_json_def)
  have f4: "faults ?w4 = [?f, ?f, ?f, ?f, ?f] @ []" by simp
  from store_contention_falls_back_to_uncached
    [where w = ?w4 and rest = "[]" and js = sample_json and v = "PyInt 0" and sv = "''10''"
      and k = ?k and t = "clock ?w3"] d f4
  have u6: "write_loop sample_json ?k (PyInt 0) (clock ?w3) 0 ?w4 = (?f, ?w5)"
    by (simp add: write_down_def fresh_world_def)
  from store_contention_falls_back_to_uncached
    [where w = write_down and ?w1.0 = ?w1 and ?w2.0 = ?w2 and ?w3.0 = ?w3 and ?w4.0 = ?w4
      and ?w5.0 = ?w5 and js = sample_json and func = numbered_func and ttl = 3600
      and name = "''test_function''" and args = "''(5,)''" and kwargs = "''{}''"
      and v = "PyInt 0"]
    u1 u2 u3 u4 u5 u6
  have u_wrap:
    "wrapper sample_json numbered_func 3600 ''test_function'' ''(5,)'' ''{}'' write_down
       = invoke numbered_func ?w5"
    by blast
  from c0 c_enter c_wrap u_wrap show ?thesis by blast
qed

section \<open>The conversion of raw dictionaries: no exception leaves it\<close>

lemma convert_returns: "\<exists>v. convert_dict_to_typed_dict lib data target_type = Inr v"
  by (simp add: convert_dict_to_typed_dict.simps [of lib data target_type]
      split: pyobj.splits sum.splits)

lemma convert_non_dict:
  "\<forall>d. data \<noteq> PyDict d \<Longrightarrow> convert_dict_to_typed_dict lib data target_type = Inr PyNone"
  by (simp add: convert_dict_to_typed_dict.simps [of lib data target_type] split: pyobj.splits)

lemma convert_typed_dict:
  "convert_dict_to_typed_dict lib (PyDict d) (TyTypedDict n hints) =
     Inr (PyDict (map (\<lambda>(field_name, field_type).
                         (field_name,
                          case convert_field lib d field_name field_type of
                            Inl e \<Rightarrow> PyNone
                          | Inr v \<Rightarrow> v)) hints))"
  by (simp add: convert_dict_to_typed_dict.simps [of lib "PyDict d" "TyTypedDict n hints"])

lemma map_of_converted:
  "distinct (map fst hints) \<Longrightarrow> (f, t) \<in> set hints \<Longrightarrow>
   map_of (map (\<lambda>(field_name, field_type). (field_name, g field_name field_type)) hints) f
     = Some (g f t)"
  by (induction hints) (auto simp: rev_image_eqI)

lemma convert_field_float_str:
  "dict_get d f = PyStr s \<Longrightarrow> float_of_str lib s = None \<Longrightarrow>
   convert_field lib d f TyFloat = Inr (PyFloat 0)"
  by (simp add: convert_field.simps [of lib d f TyFloat] u_convert_value_to_type_def)

text \<open>
  C10. \<open>convert_dict_to_typed_dict\<close> returns on every input. It returns \<open>None\<close> on
  \<open>None\<close> and on every value that is not a \<open>dict\<close>. On a \<open>dict\<close> and a \<open>TypedDict\<close>
  class it returns a \<open>dict\<close> with one entry for each declared field, in which a
  \<open>float\<close> field whose value is a string that \<open>float\<close> rejects is \<open>0.0\<close>, and a field
  whose conversion raised is \<open>None\<close>.
\<close>

theorem convert_never_raises:
  "(\<exists>v. convert_dict_to_typed_dict lib data target_type = Inr v)
   \<and> ((\<forall>x. data \<noteq> PyDict x) \<longrightarrow> convert_dict_to_typed_dict lib data target_type = Inr PyNone)
   \<and> (distinct (map fst hints) \<and> (f, t) \<in> set hints \<longrightarrow>
        (\<exists>r. convert_dict_to_typed_dict lib (PyDict d) (TyTypedDict n hints) = Inr (PyDict r)
           \<and> map fst r = map fst hints
           \<and> (t = TyFloat \<and> dict_get d f = PyStr s \<and> float_of_str lib s = None \<longrightarrow>
                map_of r f = Some (PyFloat 0))
           \<and> (\<forall>e. convert_field lib d f t = Inl e \<longrightarrow> map_of r f = Some PyNone)))"
proof (intro conjI impI)
  show "\<exists>v. convert_dict_to_typed_dict lib data target_type = Inr v"
    by (rule convert_returns)
next
  assume "\<forall>x. data \<noteq> PyDict x"
  then show "convert_dict_to_typed_dict lib data target_type = Inr PyNone"
    by (rule convert_non_dict)
next
  assume a: "distinct (map fst hints) \<and> (f, t) \<in> set hints"
  let ?g = "\<lambda>field_name field_type.
              case convert_field lib d field_name field_type of Inl e \<Rightarrow> PyNone | Inr v \<Rightarrow> v"
  let ?r = "map (\<lambda>(field_name, field_type). (field_name, ?g field_name field_type)) hints"
  have res: "convert_dict_to_typed_dict lib (PyDict d) (TyTypedDict n hints) = Inr (PyDict ?r)"
    by (rule convert_typed_dict)
  have keys: "map fst ?r = map fst hints" by (induction hints) auto
  from a have look: "map_of ?r f = Some (?g f t)"
    using map_of_converted [of hints f t ?g] by simp
  have zero: "t = TyFloat \<and> dict_get d f = PyStr s \<and> float_of_str lib s = None \<longrightarrow>
                map_of ?r f = Some (PyFloat 0)"
    using look by (auto simp: convert_field_float_str)
  have none: "\<forall>e. convert_field lib d f t = Inl e \<longrightarrow> map_of ?r f = Some PyNone"
    using look by auto
  from res keys zero none
  show "\<exists>r. convert_dict_to_typed_dict lib (PyDict d) (TyTypedDict n hints) = Inr (PyDict r)
           \<and> map fst r = map fst hints
           \<and> (t = TyFloat \<and> dict_get d f = PyStr s \<and> float_of_str lib s = None \<longrightarrow>
                map_of r f = Some (PyFloat 0))
           \<and> (\<forall>e. convert_field lib d f t = Inl e \<longrightarrow> map_of r f = Some PyNone)"
    by blast
qed

theorem convert_never_raises_witness:
  "distinct (map fst BankTransfer_fields)
   \<and> dict_get raw_transfer ''amount'' = PyStr ''abc''
   \<and> float_of_str sample_lib ''abc'' = None
   \<and> convert_field sample_lib raw_transfer ''created_at'' TyDatetime = Inl ValueError
   \<and> convert_dict_to_typed_dict sample_lib PyNone BankTransfer_type = Inr PyNone
   \<and> convert_dict_to_typed_dict sample_lib (PyList []) BankTransfer_type = Inr PyNone
   \<and> (\<exists>r. convert_dict_to_typed_dict sample_lib (PyDict raw_transfer) BankTransfer_type
              = Inr (PyDict r)
          \<and> map_of r ''amount'' = Some (PyFloat 0)
          \<and> map_of r ''created_at'' = Some PyNone)"
proof -
  have h1: "distinct (map fst BankTransfer_fields)"
    and h2: "(''amount'', TyFloat) \<in> set BankTransfer_fields"
    and h3: "(''created_at'', TyDatetime) \<in> set BankTransfer_fields"
    by (simp_all add: BankTransfer_fields_def)
  have h4: "dict_get raw_transfer ''amount'' = PyStr ''abc''"
    by (simp add: dict_get_def raw_transfer_def)
  have h5: "float_of_str sample_lib ''abc'' = None"
    by (simp add: sample_lib_def)
  have h6: "convert_field sample_lib raw_transfer ''created_at'' TyDatetime = Inl ValueError"
    by (simp add: convert_field.simps u_convert_value_to_type_def dict_get_def raw_transfer_def
        sample_lib_def replace_Z_def)
  note at_amount = convert_never_raises
    [where lib = sample_lib and hints = BankTransfer_fields and f = "''amount''" and t = TyFloat
      and d = raw_transfer and s = "''abc''" and n = "''BankTransfer''"]
  note at_created = convert_never_raises
    [where lib = sample_lib and hints = BankTransfer_fields and f = "''created_at''"
      and t = TyDatetime and d = raw_transfer and n = "''BankTransfer''"]
  from at_amount [where data = PyNone and target_type = BankTransfer_type]
  have n1: "convert_dict_to_typed_dict sample_lib PyNone BankTransfer_type = Inr PyNone"
    by simp
  from at_amount [where data = "PyList []" and target_type = BankTransfer_type]
  have n2: "convert_dict_to_typed_dict sample_lib (PyList []) BankTransfer_type = Inr PyNone"
    by simp
  from at_amount h1 h2 h4 h5 obtain r where
    r: "convert_dict_to_typed_dict sample_lib (PyDict raw_transfer)
          (TyTypedDict ''BankTransfer'' BankTransfer_fields) = Inr (PyDict r)"
    and ra: "map_of r ''amount'' = Some (PyFloat 0)"
    by blast
  from at_created h1 h3 h6 obtain r' where
    r': "convert_dict_to_typed_dict sample_lib (PyDict raw_transfer)
          (TyTypedDict ''BankTransfer'' BankTransfer_fields) = Inr (PyDict r')"
    and rc: "map_of r' ''created_at'' = Some PyNone"
    by blast
  from r r' have "r' = r" by simp
  with r ra rc have "\<exists>r. convert_dict_to_typed_dict sample_lib (PyDict raw_transfer)
        BankTransfer_type = Inr (PyDict r)
      \<and> map_of r ''amount'' = Some (PyFloat 0) \<and> map_of r ''created_at'' = Some PyNone"
    by (auto simp: BankTransfer_type_def)
  with h1 h4 h5 h6 n1 n2 show ?thesis by blast
qed

end
